theory Spec2Isabelle
  imports Main "HOL-Library.AList" "HOL-Library.Sublist" "HOL-Library.List_Lexorder"
    "HOL-Library.Char_ord" "HOL-Library.Multiset"
begin

section \<open>JavaScript values and strings\<close>

text \<open>
  The web API (\<^verbatim>\<open>webapp/api/index.js\<close>) is JavaScript. A value taken from a JSON request
  body is one of the cases below; \<open>JUndefined\<close> stands for an absent member and
  \<open>JObject\<close> for any array or object (always truthy). JSON numbers are kept as integers:
  the handlers only test them for zero.
\<close>

datatype jsval = JUndefined | JNull | JBool bool | JNum int | JStr string | JObject

fun truthy :: "jsval \<Rightarrow> bool" where
  "truthy JUndefined = False"
| "truthy JNull = False"
| "truthy (JBool b) = b"
| "truthy (JNum n) = (n \<noteq> 0)"
| "truthy (JStr s) = (s \<noteq> [])"
| "truthy JObject = True"

text \<open>
  Strings are lists of characters, one per code unit; names are taken to be ASCII, where
  \<^verbatim>\<open>toLowerCase\<close> only touches \<^verbatim>\<open>A-Z\<close> and the character class \<^verbatim>\<open>[A-Za-z0-9]\<close> is as below.
\<close>

definition isAlnum :: "char \<Rightarrow> bool" where
  "isAlnum c = (c \<in> set (''ABCDEFGHIJKLMNOPQRSTUVWXYZ'' @ ''abcdefghijklmnopqrstuvwxyz'' @ ''0123456789''))"

definition toLowerChar :: "char \<Rightarrow> char" where
  "toLowerChar c =
     (case map_of (zip ''ABCDEFGHIJKLMNOPQRSTUVWXYZ'' ''abcdefghijklmnopqrstuvwxyz'') c of
        Some l \<Rightarrow> l
      | None \<Rightarrow> c)"

definition toLowerCase :: "string \<Rightarrow> string" where
  "toLowerCase s = map toLowerChar s"

text \<open>\<^verbatim>\<open>s.includes(sub)\<close>: \<open>sub\<close> occurs in \<open>s\<close> as a contiguous run.\<close>

fun includesStr :: "string \<Rightarrow> string \<Rightarrow> bool" where
  "includesStr [] sub = (sub = [])"
| "includesStr (c # cs) sub = (prefix sub (c # cs) \<or> includesStr cs sub)"

text \<open>\<^verbatim>\<open>s.replace(/[^A-Za-z0-9]/g, '')\<close>\<close>

definition cleanKey :: "string \<Rightarrow> string" where
  "cleanKey s = filter isAlnum s"

text \<open>\<^verbatim>\<open>s.split('-').pop()\<close>: what follows the last hyphen (all of \<open>s\<close> when it has none).\<close>

definition lastSegment :: "string \<Rightarrow> string" where
  "lastSegment s = rev (takeWhile (\<lambda>c. c \<noteq> CHR ''-'') (rev s))"

text \<open>\<^verbatim>\<open>v || d\<close> on a value that is a string or null/undefined: the empty string is falsy.\<close>

definition orElse :: "string option \<Rightarrow> 'a \<Rightarrow> (string \<Rightarrow> 'a) \<Rightarrow> 'a" where
  "orElse v d f = (case v of None \<Rightarrow> d | Some s \<Rightarrow> if s = [] then d else f s)"

section \<open>The regular expressions of the grouping\<close>

text \<open>
  \<^verbatim>\<open>name.match(/Blueprint-([A-Za-z0-9]+)$/)\<close>: the start positions are tried from the left; at
  each, the literal \<^verbatim>\<open>Blueprint-\<close> must be followed by one or more alphanumerics that reach
  the end of the name. The result is capture group 1.
\<close>

definition blueprintAt :: "string \<Rightarrow> string option" where
  "blueprintAt s =
     (if prefix ''Blueprint-'' s
      then (let t = drop 10 s in if t \<noteq> [] \<and> list_all isAlnum t then Some t else None)
      else None)"

fun blueprintMatch :: "string \<Rightarrow> string option" where
  "blueprintMatch [] = None"
| "blueprintMatch (c # cs) =
     (case blueprintAt (c # cs) of Some t \<Rightarrow> Some t | None \<Rightarrow> blueprintMatch cs)"

text \<open>
  \<^verbatim>\<open>name.match(/^(.*?)-(Opentofu|Ansible)(-.*)?$/i)\<close>. The dot does not match a line
  terminator. \<open>markerAt\<close> matches \<^verbatim>\<open>-(Opentofu|Ansible)(-.*)?$\<close> at the head of its argument
  and returns capture group 3 (\<^verbatim>\<open>|| ''\<close> already applied); \<open>manualFrom\<close> grows the lazy
  group 1 one character at a time and returns groups 1 and 3.
\<close>

definition isLineTerminator :: "char \<Rightarrow> bool" where
  "isLineTerminator c = (c = CHR 0x0A \<or> c = CHR 0x0D)"

definition suffixAt :: "string \<Rightarrow> string option" where
  "suffixAt t =
     (if t = [] then Some []
      else if hd t = CHR ''-'' \<and> \<not> list_ex isLineTerminator (tl t) then Some t
      else None)"

definition markerAt :: "string \<Rightarrow> string option" where
  "markerAt s =
     (case s of
        [] \<Rightarrow> None
      | c # r \<Rightarrow>
          if c \<noteq> CHR ''-'' then None
          else if toLowerCase (take 8 r) = ''opentofu'' then suffixAt (drop 8 r)
          else if toLowerCase (take 7 r) = ''ansible'' then suffixAt (drop 7 r)
          else None)"

fun manualFrom :: "string \<Rightarrow> string \<Rightarrow> (string \<times> string) option" where
  "manualFrom base [] = None"
| "manualFrom base (c # cs) =
     (case markerAt (c # cs) of
        Some sfx \<Rightarrow> Some (base, sfx)
      | None \<Rightarrow> if isLineTerminator c then None else manualFrom (base @ [c]) cs)"

definition manualMatch :: "string \<Rightarrow> (string \<times> string) option" where
  "manualMatch s = manualFrom [] s"

section \<open>Aggregate status\<close>

text \<open>\<^verbatim>\<open>determineOverallStatus(opentofuStatus, ansibleStatus)\<close>, branch by branch.\<close>

definition determineOverallStatus :: "string \<Rightarrow> string \<Rightarrow> string" where
  "determineOverallStatus opentofuStatus ansibleStatus =
     (if opentofuStatus = ''FINISHED'' \<and> ansibleStatus = ''FINISHED'' then ''Ready''
      else if opentofuStatus = ''FAILED'' \<or> ansibleStatus = ''FAILED'' then ''Failed''
      else if opentofuStatus = ''UNCONFIRMED'' \<or> ansibleStatus = ''UNCONFIRMED''
        then ''Pending Confirmation''
      else if opentofuStatus = ''PLANNING'' \<or> ansibleStatus = ''PLANNING'' then ''Planning''
      else if opentofuStatus = ''APPLYING'' \<or> ansibleStatus = ''APPLYING'' then ''Deploying''
      else if opentofuStatus = ''Missing'' \<or> ansibleStatus = ''Missing'' then ''Incomplete''
      else ''In Progress'')"

text \<open>
  The precedence table as the specification words it: an ordered list of rules, each a
  condition on the pair and the label it yields; the first rule that applies decides, and
  \<^verbatim>\<open>In Progress\<close> is the label when none does.
\<close>

type_synonym rule = "(string \<Rightarrow> string \<Rightarrow> bool) \<times> string"

definition both :: "string \<Rightarrow> string \<Rightarrow> string \<Rightarrow> bool" where
  "both v p c = (p = v \<and> c = v)"

definition either :: "string \<Rightarrow> string \<Rightarrow> string \<Rightarrow> bool" where
  "either v p c = (p = v \<or> c = v)"

definition precedenceTable :: "rule list" where
  "precedenceTable =
     [(both ''FINISHED'', ''Ready''),
      (either ''FAILED'', ''Failed''),
      (either ''UNCONFIRMED'', ''Pending Confirmation''),
      (either ''PLANNING'', ''Planning''),
      (either ''APPLYING'', ''Deploying''),
      (either ''Missing'', ''Incomplete'')]"

fun firstMatch :: "rule list \<Rightarrow> string \<Rightarrow> string \<Rightarrow> string" where
  "firstMatch [] p c = ''In Progress''"
| "firstMatch ((cond, label) # rules) p c = (if cond p c then label else firstMatch rules p c)"

section \<open>Grouping stacks\<close>

text \<open>
  A stack as the \<^verbatim>\<open>stacks\<close> query returns it; \<open>outputs\<close> and \<open>labels\<close> may be null.
  \<open>createdAt\<close> is the timestamp of the API, a number; the value of an output is a string
  or null.
\<close>

record stackOutput =
  output_id :: string
  output_value :: "string option"

record stack =
  stack_id :: string
  stack_name :: string
  state :: string
  createdAt :: int
  outputs :: "stackOutput list option"
  labels :: "string list option"

text \<open>The \<^verbatim>\<open>{id, name, status}\<close> object stored in a group's role slot.\<close>

record member =
  member_id :: string
  member_name :: string
  member_status :: string

record group =
  group_id :: string
  group_name :: string
  status :: string
  ip :: "string option"
  instanceType :: string
  maxPlayers :: string
  created :: "int option"
  opentofu :: "member option"
  ansible :: "member option"
  isManual :: bool

text \<open>The first part of the loop body: group key, group name and the manual flag.\<close>

definition classify :: "string \<Rightarrow> string \<times> string \<times> bool" where
  "classify name =
     (case blueprintMatch name of
        Some groupKey \<Rightarrow> (groupKey, ''Blueprint-'' @ groupKey, False)
      | None \<Rightarrow>
          (case manualMatch name of
             Some (baseName, sfx) \<Rightarrow>
               (cleanKey (baseName @ sfx), ''Manual-'' @ baseName @ sfx, True)
           | None \<Rightarrow> (cleanKey name, ''Individual-'' @ name, True)))"

definition groupKeyOf :: "stack \<Rightarrow> string" where
  "groupKeyOf s = fst (classify (stack_name s))"

definition newGroup :: "string \<Rightarrow> string \<Rightarrow> bool \<Rightarrow> group" where
  "newGroup groupKey groupName manual =
     \<lparr>group_id = groupKey, group_name = groupName, status = ''Unknown'', ip = None,
      instanceType = ''unknown'', maxPlayers = ''unknown'', created = None,
      opentofu = None, ansible = None, isManual = manual\<rparr>"

definition memberOf :: "stack \<Rightarrow> member" where
  "memberOf s = \<lparr>member_id = stack_id s, member_name = stack_name s, member_status = state s\<rparr>"

text \<open>
  \<^verbatim>\<open>stack.outputs ? stack.outputs.reduce(...) : {}\<close>: the object built from the outputs, a later
  entry replacing an earlier one of the same id. A null value reads like an absent one.
\<close>

definition reduceOutputs :: "stackOutput list option \<Rightarrow> string \<Rightarrow> string option" where
  "reduceOutputs os =
     (case os of
        None \<Rightarrow> Map.empty
      | Some l \<Rightarrow> foldl (\<lambda>acc out. acc(output_id out := output_value out)) Map.empty l)"

definition isOpentofuName :: "string \<Rightarrow> bool" where
  "isOpentofuName name = includesStr (toLowerCase name) ''opentofu''"

definition isAnsibleName :: "string \<Rightarrow> bool" where
  "isAnsibleName name = includesStr (toLowerCase name) ''ansible''"

text \<open>\<^verbatim>\<open>!groups[groupKey].created\<close>: null, or the number 0.\<close>

definition createdUnset :: "int option \<Rightarrow> bool" where
  "createdUnset c = (c = None \<or> c = Some 0)"

text \<open>The three attachment branches (\<^verbatim>\<open>opentofu\<close>, \<^verbatim>\<open>ansible\<close>, neither).\<close>

definition attach :: "group \<Rightarrow> stack \<Rightarrow> group" where
  "attach g s =
     (if isOpentofuName (stack_name s) then
        (let outs = reduceOutputs (outputs s) in
         g\<lparr>opentofu := Some (memberOf s),
           ip := orElse (outs ''ec2_ip'') None Some,
           instanceType := orElse (outs ''instance_type'') ''unknown'' (\<lambda>v. v),
           maxPlayers := orElse (outs ''max_players'') ''unknown'' (\<lambda>v. v),
           created := Some (createdAt s)\<rparr>)
      else if isAnsibleName (stack_name s) then
        g\<lparr>ansible := Some (memberOf s),
          created := (if createdUnset (created g) then Some (createdAt s) else created g)\<rparr>
      else
        g\<lparr>opentofu := Some (memberOf s), created := Some (createdAt s)\<rparr>)"

text \<open>\<^verbatim>\<open>groups[groupKey].opentofu?.status || 'Missing'\<close>\<close>

definition statusOrMissing :: "member option \<Rightarrow> string" where
  "statusOrMissing m =
     (case m of None \<Rightarrow> ''Missing''
      | Some x \<Rightarrow> if member_status x = [] then ''Missing'' else member_status x)"

definition refreshStatus :: "group \<Rightarrow> group" where
  "refreshStatus g =
     g\<lparr>status := determineOverallStatus (statusOrMissing (opentofu g)) (statusOrMissing (ansible g))\<rparr>"

text \<open>
  \<open>groups\<close> is a plain object literal used as a dictionary. Its own properties are kept
  as an association list in creation order. A key that names a property inherited from
  \<^verbatim>\<open>Object.prototype\<close> reads as that (truthy) inherited value: no own property is created,
  and the writes of the loop body land on the inherited function object, outside \<open>groups\<close>.
  Group keys are alphanumeric, so the names with underscores cannot occur; they are listed
  for completeness.
\<close>

definition inheritedKeys :: "string list" where
  "inheritedKeys =
     [''constructor'', ''hasOwnProperty'', ''isPrototypeOf'', ''propertyIsEnumerable'',
      ''toLocaleString'', ''toString'', ''valueOf'', ''__proto__'', ''__defineGetter__'',
      ''__defineSetter__'', ''__lookupGetter__'', ''__lookupSetter__'']"

text \<open>One iteration of \<^verbatim>\<open>stacks.forEach\<close>.\<close>

definition addStack :: "(string \<times> group) list \<Rightarrow> stack \<Rightarrow> (string \<times> group) list" where
  "addStack groups s =
     (case classify (stack_name s) of
        (groupKey, groupName, manual) \<Rightarrow>
          if groupKey = [] then groups
          else if groupKey \<in> set inheritedKeys then groups
          else
            (let g = (case map_of groups groupKey of
                        None \<Rightarrow> newGroup groupKey groupName manual
                      | Some g0 \<Rightarrow> g0)
             in AList.update groupKey (refreshStatus (attach g s)) groups))"

text \<open>
  \<^verbatim>\<open>Object.values(groups)\<close>: the own properties whose key is an array index (a canonical
  decimal below \<open>2^32 - 1\<close>) come first, in ascending numeric order, then the others in
  creation order.
\<close>

definition isDigit :: "char \<Rightarrow> bool" where
  "isDigit c = (c \<in> set ''0123456789'')"

definition digitValue :: "char \<Rightarrow> int" where
  "digitValue c = (case map_of (zip ''0123456789'' [0, 1, 2, 3, 4, 5, 6, 7, 8, 9]) c of
                     Some d \<Rightarrow> d | None \<Rightarrow> 0)"

definition decimalValue :: "string \<Rightarrow> int" where
  "decimalValue s = foldl (\<lambda>n c. 10 * n + digitValue c) 0 s"

definition isArrayIndex :: "string \<Rightarrow> bool" where
  "isArrayIndex k =
     (k \<noteq> [] \<and> list_all isDigit k \<and> (k = ''0'' \<or> hd k \<noteq> CHR ''0'') \<and> decimalValue k < 4294967295)"

definition objectValues :: "(string \<times> 'a) list \<Rightarrow> 'a list" where
  "objectValues kvs =
     map snd (sort_key (\<lambda>kv. decimalValue (fst kv)) (filter (\<lambda>kv. isArrayIndex (fst kv)) kvs)
              @ filter (\<lambda>kv. \<not> isArrayIndex (fst kv)) kvs)"

text \<open>
  \<^verbatim>\<open>groupArray.sort(compare)\<close>. The comparison of names, \<^verbatim>\<open>a.name.localeCompare(b.name)\<close>, is the
  collation of the runtime's locale and is a parameter \<open>localeCompare\<close> here. The sort
  itself is that of the runtime: stable, and for a consistent comparison function it yields
  the sorted order; it is modelled as a stable insertion sort.
\<close>

definition compareGroups :: "(string \<Rightarrow> string \<Rightarrow> int) \<Rightarrow> group \<Rightarrow> group \<Rightarrow> int" where
  "compareGroups localeCompare a b =
     (if isManual a \<and> \<not> isManual b then 1
      else if \<not> isManual a \<and> isManual b then - 1
      else localeCompare (group_name a) (group_name b))"

fun insertBy :: "('a \<Rightarrow> 'a \<Rightarrow> int) \<Rightarrow> 'a \<Rightarrow> 'a list \<Rightarrow> 'a list" where
  "insertBy cmp x [] = [x]"
| "insertBy cmp x (y # ys) = (if cmp x y \<le> 0 then x # y # ys else y # insertBy cmp x ys)"

definition sortBy :: "('a \<Rightarrow> 'a \<Rightarrow> int) \<Rightarrow> 'a list \<Rightarrow> 'a list" where
  "sortBy cmp xs = foldr (insertBy cmp) xs []"

definition groupsObject :: "stack list \<Rightarrow> (string \<times> group) list" where
  "groupsObject stacks = foldl addStack [] stacks"

definition groupStacksByBlueprint :: "(string \<Rightarrow> string \<Rightarrow> int) \<Rightarrow> stack list \<Rightarrow> group list" where
  "groupStacksByBlueprint localeCompare stacks =
     sortBy (compareGroups localeCompare) (objectValues (groupsObject stacks))"

text \<open>
  A comparison function is consistent when ``not after'' is a total preorder. One such
  function, the order of the code units, serves for concrete evaluations.
\<close>

definition consistent :: "('a \<Rightarrow> 'a \<Rightarrow> int) \<Rightarrow> bool" where
  "consistent cmp =
     ((\<forall>a b. cmp a b \<le> 0 \<or> cmp b a \<le> 0) \<and>
      (\<forall>a b c. cmp a b \<le> 0 \<and> cmp b c \<le> 0 \<longrightarrow> cmp a c \<le> 0))"

definition codeUnitCompare :: "string \<Rightarrow> string \<Rightarrow> int" where
  "codeUnitCompare a b = (if a < b then - 1 else if a = b then 0 else 1)"

section \<open>The orchestrator client\<close>

text \<open>
  Every handler reaches the orchestrator through \<^verbatim>\<open>spaceliftQuery(query, variables)\<close>, which
  either returns the \<^verbatim>\<open>data\<close> of the response or throws an \<^verbatim>\<open>Error\<close> with a message (the token
  exchange failed, the transport failed, or the response carried \<^verbatim>\<open>errors\<close>, of which the
  first message is kept). The client is a parameter: one response function per operation,
  over a world \<open>'w\<close> that each call may change, \<open>Inl\<close> being the thrown message. Every call
  and every \<^verbatim>\<open>setTimeout\<close> wait is appended to a trace, the call log of the run.
\<close>

datatype templateValue = Plain jsval | ToStringOf jsval

datatype operation =
    GetStack string
  | GetAllStacks
  | StackDelete string bool
  | TaskTrigger string string
  | GetBlueprint string
  | BlueprintCreateStack string "(string \<times> templateValue) list"

datatype event = Call operation | Sleep nat

record blueprint =
  blueprint_id :: string
  blueprint_name :: string

record 'w client =
  getStack :: "string \<Rightarrow> 'w \<Rightarrow> (string + stack option) \<times> 'w"
  getAllStacks :: "'w \<Rightarrow> (string + stack list) \<times> 'w"
  stackDelete :: "string \<Rightarrow> 'w \<Rightarrow> (string + string option) \<times> 'w"
  taskTrigger :: "string \<Rightarrow> string \<Rightarrow> 'w \<Rightarrow> (string + string option) \<times> 'w"
  getBlueprint :: "string \<Rightarrow> 'w \<Rightarrow> (string + blueprint option) \<times> 'w"
  blueprintCreateStack ::
    "string \<Rightarrow> (string \<times> templateValue) list \<Rightarrow> 'w \<Rightarrow> (string + string list option) \<times> 'w"
  elapse :: "nat \<Rightarrow> 'w \<Rightarrow> 'w"

record 'w run =
  world :: 'w
  trace :: "event list"

definition spaceliftQuery :: "operation \<Rightarrow> ('w \<Rightarrow> 'r \<times> 'w) \<Rightarrow> 'w run \<Rightarrow> 'r \<times> 'w run" where
  "spaceliftQuery oper respond st =
     (case respond (world st) of
        (r, w) \<Rightarrow> (r, \<lparr>world = w, trace = trace st @ [Call oper]\<rparr>))"

text \<open>\<^verbatim>\<open>await new Promise(resolve => setTimeout(resolve, ms))\<close>\<close>

definition sleep :: "'w client \<Rightarrow> nat \<Rightarrow> 'w run \<Rightarrow> 'w run" where
  "sleep cl ms st = \<lparr>world = elapse cl ms (world st), trace = trace st @ [Sleep ms]\<rparr>"

text \<open>
  The message of the \<^verbatim>\<open>TypeError\<close> thrown by reading a property of \<^verbatim>\<open>null\<close>, as Node words it.
\<close>

definition nullReadError :: "string \<Rightarrow> string" where
  "nullReadError prop = ''Cannot read properties of null (reading '' @ [CHR 0x27] @ prop @ [CHR 0x27] @ '')''"

section \<open>Deleting a server\<close>

text \<open>
  An entry of \<^verbatim>\<open>destroyResults\<close> is \<^verbatim>\<open>{stack, stackId, deleted: true, result}\<close> or
  \<^verbatim>\<open>{stack, stackId, error}\<close>; \<open>result\<close> is the id in the \<^verbatim>\<open>stackDelete\<close> payload, or null.
\<close>

datatype destroyResult =
    Destroyed string string "string option"
  | DestroyFailed string string string

text \<open>
  An entry of \<^verbatim>\<open>statusUpdates\<close>: its type and its message (the timestamp, a reading of the
  clock, is left out, and so are the emoji that open some messages).
\<close>

datatype updateType = TInfo | TSuccess | TWarning | TError

type_synonym statusUpdate = "updateType \<times> string"

text \<open>
  The responses of \<^verbatim>\<open>DELETE /api/servers/:serverId\<close>, one constructor per \<^verbatim>\<open>res.json\<close>:
  404 with \<^verbatim>\<open>statusUpdates\<close>; 500 with the message of the error caught; the end of a direct
  deletion (\<^verbatim>\<open>destroyResults\<close>, \<^verbatim>\<open>statusUpdates\<close>, \<^verbatim>\<open>worldSaved: false\<close>); the end of a group
  deletion (\<^verbatim>\<open>message\<close>, \<^verbatim>\<open>destroyResults\<close>, \<^verbatim>\<open>worldSaved\<close>).
\<close>

datatype deleteResponse =
    NotFound "statusUpdate list"
  | ServerError string
  | DirectDone "destroyResult list" "statusUpdate list"
  | GroupDone string "destroyResult list" jsval




text \<open>
  One \<^verbatim>\<open>try { ... stackDelete ... } catch\<close> block of the group deletion; the block for the
  Ansible stack and the one for the OpenTofu stack differ in the tag only. The entry is
  pushed before \<^verbatim>\<open>console.log\<close> reads \<^verbatim>\<open>stackDelete.id\<close>, so a null payload leaves the
  \<open>Destroyed\<close> entry and then, through the \<^verbatim>\<open>catch\<close>, an error entry.
\<close>

definition tryDestroy :: "'w client \<Rightarrow> string \<Rightarrow> stack \<Rightarrow> 'w run \<Rightarrow> destroyResult list \<times> 'w run" where
  "tryDestroy cl tag s st =
     (case spaceliftQuery (StackDelete (stack_id s) True) (stackDelete cl (stack_id s)) st of
        (Inl e, st1) \<Rightarrow> ([DestroyFailed tag (stack_id s) e], st1)
      | (Inr None, st1) \<Rightarrow>
          ([Destroyed tag (stack_id s) None, DestroyFailed tag (stack_id s) (nullReadError ''id'')], st1)
      | (Inr (Some i), st1) \<Rightarrow> ([Destroyed tag (stack_id s) (Some i)], st1))"

text \<open>The part headed \<^verbatim>\<open>// Delete stacks\<close>: the Ansible stack, the wait, the OpenTofu stack.\<close>

definition deleteStacks ::
    "'w client \<Rightarrow> stack option \<Rightarrow> stack option \<Rightarrow> 'w run \<Rightarrow> destroyResult list \<times> 'w run" where
  "deleteStacks cl ansibleStack openTofuStack st =
     (case (case ansibleStack of None \<Rightarrow> ([], st) | Some a \<Rightarrow> tryDestroy cl ''ansible'' a st) of
        (r1, st1) \<Rightarrow>
          (case openTofuStack of
             None \<Rightarrow> (r1, st1)
           | Some t \<Rightarrow>
               (case tryDestroy cl ''opentofu'' t
                       (if ansibleStack \<noteq> None then sleep cl 10000 st1 else st1) of
                  (r2, st2) \<Rightarrow> (r1 @ r2, st2))))"

text \<open>The part headed \<^verbatim>\<open>// Save world if requested\<close>; it yields \<^verbatim>\<open>saveMessage\<close>.\<close>

definition saveCommand :: string where
  "saveCommand = ''ansible-playbook save-world.yml''"

definition notSavedMessage :: "jsval \<Rightarrow> string" where
  "notSavedMessage saveWorld =
     (if truthy saveWorld then ''World save requested but server not available for saving. ''
      else ''World not saved (user choice). '')"

definition saveWorldFirst :: "'w client \<Rightarrow> jsval \<Rightarrow> stack option \<Rightarrow> 'w run \<Rightarrow> string \<times> 'w run" where
  "saveWorldFirst cl saveWorld ansibleStack st =
     (case ansibleStack of
        None \<Rightarrow> (notSavedMessage saveWorld, st)
      | Some a \<Rightarrow>
          if truthy saveWorld \<and> state a = ''FINISHED'' then
            (case spaceliftQuery (TaskTrigger (stack_id a) saveCommand)
                    (taskTrigger cl (stack_id a) saveCommand) st of
               (Inl e, st1) \<Rightarrow> (''World save failed but continuing with deletion. '', st1)
             | (Inr None, st1) \<Rightarrow> (''World save failed but continuing with deletion. '', st1)
             | (Inr (Some taskId), st1) \<Rightarrow>
                 (''World saved to S3 before deletion. '', sleep cl 10000 st1))
          else (notSavedMessage saveWorld, st))"

text \<open>
  The two \<^verbatim>\<open>allStacks.find\<close> of the group deletion. \<open>roleMatch\<close> is the callback: the name
  equals the expected one up to case, or it contains the random string and, in lower case,
  the role marker. \<^verbatim>\<open>find\<close> returns the first stack of the listing that the callback accepts.
\<close>

definition roleMatch :: "string \<Rightarrow> string \<Rightarrow> string \<Rightarrow> stack \<Rightarrow> bool" where
  "roleMatch expectedName randomString marker s =
     (toLowerCase (stack_name s) = toLowerCase expectedName \<or>
      (includesStr (stack_name s) randomString \<and>
       includesStr (toLowerCase (stack_name s)) marker))"

definition findRole :: "string \<Rightarrow> string \<Rightarrow> string \<Rightarrow> stack list \<Rightarrow> stack option" where
  "findRole expectedName randomString marker allStacks =
     find (roleMatch expectedName randomString marker) allStacks"

definition findOpenTofu :: "string \<Rightarrow> stack list \<Rightarrow> stack option" where
  "findOpenTofu randomString allStacks =
     findRole (''Minesible-Opentofu-Blueprint-'' @ randomString) randomString ''opentofu'' allStacks"

definition findAnsible :: "string \<Rightarrow> stack list \<Rightarrow> stack option" where
  "findAnsible randomString allStacks =
     findRole (''Minesible-Ansible-Blueprint-'' @ randomString) randomString ''ansible'' allStacks"

text \<open>\<^verbatim>\<open>saveWorld && saveMessage.includes('saved')\<close>\<close>

definition worldSavedValue :: "jsval \<Rightarrow> string \<Rightarrow> jsval" where
  "worldSavedValue saveWorld saveMessage =
     (if truthy saveWorld then JBool (includesStr saveMessage ''saved'') else saveWorld)"

text \<open>The group deletion: what the handler does once the direct branch is not taken.\<close>

definition groupDeletion :: "'w client \<Rightarrow> stack \<Rightarrow> jsval \<Rightarrow> 'w run \<Rightarrow> deleteResponse \<times> 'w run" where
  "groupDeletion cl target saveWorld st =
     (case spaceliftQuery GetAllStacks (getAllStacks cl) st of
        (Inl e, st1) \<Rightarrow> (ServerError e, st1)
      | (Inr allStacks, st1) \<Rightarrow>
          (let randomString = lastSegment (stack_name target);
               openTofuStack = findOpenTofu randomString allStacks;
               ansibleStack = findAnsible randomString allStacks
           in case saveWorldFirst cl saveWorld ansibleStack st1 of
                (saveMessage, st2) \<Rightarrow>
                  (case deleteStacks cl ansibleStack openTofuStack st2 of
                     (results, st3) \<Rightarrow>
                       (GroupDone (saveMessage @ ''Server deletion initiated.'') results
                          (worldSavedValue saveWorld saveMessage), st3))))"

text \<open>
  The direct deletion: the stack asked for carries a role marker in its name. If it is the
  OpenTofu stack of a blueprint, its Ansible stack is looked up and deleted first.
  \<open>destroyDependent\<close> is the \<^verbatim>\<open>if (ansibleStack)\<close> block with its \<^verbatim>\<open>try\<close>/\<^verbatim>\<open>catch\<close>.
\<close>

definition dependentFailed :: "string \<Rightarrow> statusUpdate list" where
  "dependentFailed msg =
     [(TError, ''Ansible stack deletion failed: '' @ msg),
      (TWarning, ''Continuing with OpenTofu deletion despite Ansible failure...'')]"

definition destroyDependent ::
    "'w client \<Rightarrow> stack \<Rightarrow> 'w run \<Rightarrow> destroyResult list \<times> statusUpdate list \<times> 'w run" where
  "destroyDependent cl a st =
     (let found =
            [(TInfo, ''Found dependent Ansible stack: '' @ stack_name a @ '' ('' @ state a @ '')''),
             (TWarning, ''Deleting Ansible stack first (dependency requirement)...'')];
          deleted = [(TSuccess, ''Ansible stack deleted successfully: '' @ stack_name a)]
      in case spaceliftQuery (StackDelete (stack_id a) True) (stackDelete cl (stack_id a)) st of
           (Inl e, st1) \<Rightarrow>
             ([DestroyFailed ''ansible'' (stack_id a) e], found @ dependentFailed e, st1)
         | (Inr None, st1) \<Rightarrow>
             ([Destroyed ''ansible'' (stack_id a) None,
               DestroyFailed ''ansible'' (stack_id a) (nullReadError ''id'')],
              found @ deleted @ dependentFailed (nullReadError ''id''), st1)
         | (Inr (Some i), st1) \<Rightarrow>
             ([Destroyed ''ansible'' (stack_id a) (Some i)],
              found @ deleted @ [(TInfo, ''Waiting 10 seconds before deleting OpenTofu stack...'')],
              sleep cl 10000 st1))"

text \<open>\<^verbatim>\<open>stack.labels && stack.labels.includes('minesible')\<close>\<close>

definition hasMinesibleLabel :: "stack \<Rightarrow> bool" where
  "hasMinesibleLabel s = (case labels s of None \<Rightarrow> False | Some ls \<Rightarrow> ''minesible'' \<in> set ls)"

text \<open>
  The dependency check of the direct deletion; \<open>Inl\<close> is an error thrown by the
  \<^verbatim>\<open>stacks\<close> query, which the handler's outer \<^verbatim>\<open>catch\<close> turns into a 500.
\<close>

definition checkDependencies ::
    "'w client \<Rightarrow> stack \<Rightarrow> 'w run \<Rightarrow>
       string \<times> 'w run + destroyResult list \<times> statusUpdate list \<times> 'w run" where
  "checkDependencies cl target st =
     (if isOpentofuName (stack_name target) then
        (let checking = [(TInfo, ''OpenTofu stack deletion - checking for dependent stacks...'')]
         in case blueprintMatch (stack_name target) of
              None \<Rightarrow> Inr ([], checking, st)
            | Some randomString \<Rightarrow>
                (let ansibleStackName = ''Minesible-Ansible-Blueprint-'' @ randomString;
                     looking = [(TInfo, ''Looking for Ansible stack: '' @ ansibleStackName)]
                 in case spaceliftQuery GetAllStacks (getAllStacks cl) st of
                      (Inl e, st1) \<Rightarrow> Inl (e, st1)
                    | (Inr allStacks, st1) \<Rightarrow>
                        (case find (\<lambda>s. stack_name s = ansibleStackName \<and> hasMinesibleLabel s)
                                allStacks of
                           None \<Rightarrow>
                             Inr ([], checking @ looking @
                                  [(TInfo, ''No dependent Ansible stack found, proceeding with OpenTofu deletion'')],
                                  st1)
                         | Some a \<Rightarrow>
                             (case destroyDependent cl a st1 of
                                (results, updates, st2) \<Rightarrow>
                                  Inr (results, checking @ looking @ updates, st2)))))
      else Inr ([], [(TInfo, ''Ansible stack deletion - no dependencies to check'')], st))"

text \<open>The deletion of the stack asked for (\<^verbatim>\<open>// Now delete the requested stack\<close>).\<close>

definition destroyRequested ::
    "'w client \<Rightarrow> stack \<Rightarrow> 'w run \<Rightarrow> destroyResult list \<times> statusUpdate list \<times> 'w run" where
  "destroyRequested cl target st =
     (let stackType = (if includesStr (stack_name target) ''Opentofu'' then ''OpenTofu'' else ''Ansible'');
          tag = (if includesStr (stack_name target) ''Opentofu'' then ''opentofu'' else ''ansible'');
          deleting = [(TInfo, ''Deleting '' @ stackType @ '' stack: '' @ stack_name target @ ''...'')];
          deleted = [(TSuccess, stackType @ '' stack deleted successfully: '' @ stack_name target)];
          failed = (\<lambda>msg. [(TError, stackType @ '' stack deletion failed: '' @ msg)])
      in if stack_id target = [] then
           ([DestroyFailed tag ''NULL_ID'' ''Stack ID is null or undefined''],
            deleting @ [(TError, ''Error: Stack ID is null or undefined'')], st)
         else
           (case spaceliftQuery (StackDelete (stack_id target) True)
                   (stackDelete cl (stack_id target)) st of
              (Inl e, st1) \<Rightarrow> ([DestroyFailed tag (stack_id target) e], deleting @ failed e, st1)
            | (Inr None, st1) \<Rightarrow>
                ([Destroyed tag (stack_id target) None,
                  DestroyFailed tag (stack_id target) (nullReadError ''id'')],
                 deleting @ deleted @ failed (nullReadError ''id''), st1)
            | (Inr (Some i), st1) \<Rightarrow>
                ([Destroyed tag (stack_id target) (Some i)], deleting @ deleted, st1)))"

definition directDeletion ::
    "'w client \<Rightarrow> stack \<Rightarrow> statusUpdate list \<Rightarrow> 'w run \<Rightarrow> deleteResponse \<times> 'w run" where
  "directDeletion cl target updates st =
     (case checkDependencies cl target st of
        Inl (e, st1) \<Rightarrow> (ServerError e, st1)
      | Inr (r1, u1, st1) \<Rightarrow>
          (case destroyRequested cl target st1 of
             (r2, u2, st2) \<Rightarrow>
               (DirectDone (r1 @ r2)
                  (updates @ [(TInfo, ''Direct stack deletion detected'')] @ u1 @ u2 @
                   [(TSuccess, ''Stack deletion process completed'')]), st2)))"

text \<open>
  \<^verbatim>\<open>app.delete('/api/servers/:serverId')\<close>. Reading \<^verbatim>\<open>labels.includes\<close> on null labels throws,
  and the outer \<^verbatim>\<open>catch\<close> answers 500. The request body is an object (Express 4 with the JSON
  body parser), \<open>saveWorld\<close> being \<open>JUndefined\<close> when it has no such member.
\<close>

definition deleteServer :: "'w client \<Rightarrow> string \<Rightarrow> jsval \<Rightarrow> 'w run \<Rightarrow> deleteResponse \<times> 'w run" where
  "deleteServer cl serverId saveWorld st =
     (let starting = [(TInfo, ''Starting server deletion process...'')]
      in case spaceliftQuery (GetStack serverId) (getStack cl serverId) st of
           (Inl e, st1) \<Rightarrow> (ServerError e, st1)
         | (Inr None, st1) \<Rightarrow> (NotFound starting, st1)
         | (Inr (Some target), st1) \<Rightarrow>
             (case labels target of
                None \<Rightarrow> (ServerError (nullReadError ''includes''), st1)
              | Some ls \<Rightarrow>
                  if ''minesible'' \<notin> set ls then (NotFound starting, st1)
                  else
                    (let updates = starting @
                           [(TInfo, ''Found stack: '' @ stack_name target @ '' ('' @ state target @ '')'')]
                     in if includesStr (stack_name target) ''Opentofu'' \<or>
                           includesStr (stack_name target) ''Ansible''
                        then directDeletion cl target updates st1
                        else groupDeletion cl target saveWorld st1)))"

section \<open>Deploying a server\<close>

text \<open>
  The body of \<^verbatim>\<open>POST /api/deploy\<close> after destructuring: each of the four members is a value,
  \<open>JUndefined\<close> when absent (the body itself is an object, as Express 4 with the JSON body
  parser hands it over). The value sent for \<^verbatim>\<open>max_players\<close> is \<^verbatim>\<open>maxPlayers.toString()\<close>, kept
  symbolic as \<open>ToStringOf\<close>.
\<close>

record deployBody =
  body_instanceType :: jsval
  body_s3Bucket :: jsval
  body_motd :: jsval
  body_maxPlayers :: jsval

text \<open>
  The responses: 400 \<^verbatim>\<open>{success: false, error: 'Missing required fields'}\<close>; 500 with the
  message of the error caught; 200 with \<^verbatim>\<open>stackId\<close> (the first id, undefined for an empty
  list) and \<^verbatim>\<open>allStackIds\<close> (\<^verbatim>\<open>stackName\<close>, a string built from the first id, is left out).
\<close>

datatype deployResponse =
    DeployRejected nat string
  | Deployed "string option" "string list"

definition BLUEPRINT_ID :: string where
  "BLUEPRINT_ID = ''minesible-blueprint-v2-01K0T0Z6H7XYTDEN4ST1D4SEXE''"

text \<open>
  The three attempts at \<^verbatim>\<open>blueprintCreateStack\<close>: the plain inputs, then with a
  \<^verbatim>\<open>space_id\<close> input added, then with \<^verbatim>\<open>space_id = root\<close>; the error of the third is rethrown.
\<close>

definition createStack ::
    "'w client \<Rightarrow> (string \<times> templateValue) list \<Rightarrow> 'w run \<Rightarrow> (string + string list option) \<times> 'w run" where
  "createStack cl templateInputs st =
     (let attempt = (\<lambda>inputs. spaceliftQuery (BlueprintCreateStack BLUEPRINT_ID inputs)
                                 (blueprintCreateStack cl BLUEPRINT_ID inputs))
      in case attempt templateInputs st of
           (Inr result, st1) \<Rightarrow> (Inr result, st1)
         | (Inl firstError, st1) \<Rightarrow>
             (case attempt (templateInputs @
                      [(''space_id'', Plain (JStr ''opentofu-01JB2XV5E3ZR3NDTKCN80KS6RH''))]) st1 of
                (Inr result, st2) \<Rightarrow> (Inr result, st2)
              | (Inl secondError, st2) \<Rightarrow>
                  attempt (templateInputs @ [(''space_id'', Plain (JStr ''root''))]) st2))"

definition deploy :: "'w client \<Rightarrow> deployBody \<Rightarrow> 'w run \<Rightarrow> deployResponse \<times> 'w run" where
  "deploy cl body st =
     (if \<not> truthy (body_instanceType body) \<or> \<not> truthy (body_s3Bucket body) \<or>
         \<not> truthy (body_motd body) \<or> \<not> truthy (body_maxPlayers body)
      then (DeployRejected 400 ''Missing required fields'', st)
      else
        (case spaceliftQuery (GetBlueprint BLUEPRINT_ID) (getBlueprint cl BLUEPRINT_ID) st of
           (Inl e, st1) \<Rightarrow> (DeployRejected 500 e, st1)
         | (Inr None, st1) \<Rightarrow> (DeployRejected 500 (nullReadError ''space''), st1)
         | (Inr (Some bp), st1) \<Rightarrow>
             (let templateInputs =
                    [(''instance_type'', Plain (body_instanceType body)),
                     (''s3_bucket'', Plain (body_s3Bucket body)),
                     (''motd'', Plain (body_motd body)),
                     (''max_players'', ToStringOf (body_maxPlayers body))]
              in case createStack cl templateInputs st1 of
                   (Inl e, st2) \<Rightarrow> (DeployRejected 500 e, st2)
                 | (Inr None, st2) \<Rightarrow> (DeployRejected 500 (nullReadError ''stackIds''), st2)
                 | (Inr (Some stackIds), st2) \<Rightarrow>
                     (Deployed (case stackIds of [] \<Rightarrow> None | i # _ \<Rightarrow> Some i) stackIds, st2))))"

section \<open>The token cache\<close>

text \<open>
  \<^verbatim>\<open>currentJWT\<close> and \<^verbatim>\<open>jwtExpiry\<close>, both null at start. \<^verbatim>\<open>Date.now()\<close> reads the clock of the
  world (milliseconds since the epoch); \<open>apiKeyUser\<close> is the exchange request, \<open>Inl\<close> the
  message of the error it throws, \<open>Inr\<close> the \<^verbatim>\<open>jwt\<close> of the response. \<open>exchanges\<close> counts
  the exchange requests sent.
\<close>

record tokenCache =
  currentJWT :: "string option"
  jwtExpiry :: "nat option"

record 'w auth =
  dateNow :: "'w \<Rightarrow> nat"
  apiKeyUser :: "'w \<Rightarrow> (string + string) \<times> 'w"

record 'w session =
  cache :: tokenCache
  clockWorld :: 'w
  exchanges :: nat

definition initialCache :: tokenCache where
  "initialCache = \<lparr>currentJWT = None, jwtExpiry = None\<rparr>"

text \<open>
  \<^verbatim>\<open>currentJWT && jwtExpiry && Date.now() < jwtExpiry\<close>: the cached token when the test
  passes. The empty string and the number 0 are falsy.
\<close>

definition cachedToken :: "tokenCache \<Rightarrow> nat \<Rightarrow> string option" where
  "cachedToken c now =
     (case currentJWT c of
        None \<Rightarrow> None
      | Some jwt \<Rightarrow>
          if jwt = [] then None
          else (case jwtExpiry c of
                  None \<Rightarrow> None
                | Some expiry \<Rightarrow> if expiry \<noteq> 0 \<and> now < expiry then Some jwt else None))"

definition validityWindow :: nat where
  "validityWindow = 50 * 60 * 1000"

definition getJWTToken :: "'w auth \<Rightarrow> 'w session \<Rightarrow> (string + string) \<times> 'w session" where
  "getJWTToken env s =
     (case cachedToken (cache s) (dateNow env (clockWorld s)) of
        Some jwt \<Rightarrow> (Inr jwt, s)
      | None \<Rightarrow>
          (case apiKeyUser env (clockWorld s) of
             (Inl e, w) \<Rightarrow> (Inl e, s\<lparr>clockWorld := w, exchanges := exchanges s + 1\<rparr>)
           | (Inr jwt, w) \<Rightarrow>
               (Inr jwt,
                \<lparr>cache = \<lparr>currentJWT = Some jwt, jwtExpiry = Some (dateNow env w + validityWindow)\<rparr>,
                 clockWorld = w, exchanges = exchanges s + 1\<rparr>)))"

section \<open>The grouping, key by key\<close>

text \<open>
  A key under which the loop creates an own property: not empty (\<^verbatim>\<open>if (groupKey)\<close>) and
  not the name of an inherited property.
\<close>

definition validKey :: "string \<Rightarrow> bool" where
  "validKey k = (k \<noteq> [] \<and> k \<notin> set inheritedKeys)"

text \<open>The stacks of the input whose name yields the key \<open>k\<close>, in input order.\<close>

definition membersOf :: "stack list \<Rightarrow> string \<Rightarrow> stack list" where
  "membersOf stacks k = filter (\<lambda>s. groupKeyOf s = k) stacks"

text \<open>
  The loop seen from one key: the group is created from the first stack that yields the
  key, and each stack of that key is attached in turn, the status being refreshed after
  each.
\<close>

definition attachAll :: "group \<Rightarrow> stack list \<Rightarrow> group" where
  "attachAll g ms = foldl (\<lambda>h s. refreshStatus (attach h s)) g ms"

definition groupFor :: "string \<Rightarrow> stack list \<Rightarrow> group option" where
  "groupFor k ms =
     (case ms of
        [] \<Rightarrow> None
      | m # _ \<Rightarrow>
          (case classify (stack_name m) of
             (groupKey, groupName, manual) \<Rightarrow> Some (attachAll (newGroup k groupName manual) ms)))"

text \<open>
  What the fields of a group are expected to be, stated on the members of the group. A
  member takes the Ansible slot when its name holds \<^verbatim>\<open>ansible\<close> and not \<^verbatim>\<open>opentofu\<close>; every
  other member takes the OpenTofu slot and sets \<^verbatim>\<open>created\<close>. The expected \<^verbatim>\<open>created\<close> is the
  timestamp of the last member that took the OpenTofu slot, and without such a member the
  timestamp of the first member.
\<close>

definition takesAnsibleSlot :: "stack \<Rightarrow> bool" where
  "takesAnsibleSlot s = (\<not> isOpentofuName (stack_name s) \<and> isAnsibleName (stack_name s))"

definition expectedCreated :: "stack list \<Rightarrow> int option" where
  "expectedCreated ms =
     (let overwriting = filter (\<lambda>s. \<not> takesAnsibleSlot s) ms
      in if overwriting \<noteq> [] then Some (createdAt (last overwriting))
         else (case ms of [] \<Rightarrow> None | m # _ \<Rightarrow> Some (createdAt m)))"

text \<open>
  The value of an output as a reader of the output list sees it: that of the last entry
  with the id, when it is a non-empty string. \<open>provisioningOutput\<close> is that value for the
  last member of a group whose name holds \<^verbatim>\<open>opentofu\<close>, and nothing when the group has no
  such member or the output is unavailable. \<open>expectedPassThrough\<close> records what this copy of
  the function (\<^verbatim>\<open>index.js\<close>) then stores: the \<^verbatim>\<open>ec2_ip\<close> output or null, and the outputs
  \<^verbatim>\<open>instance_type\<close> and \<^verbatim>\<open>max_players\<close> or the string \<^verbatim>\<open>unknown\<close>. The copy in \<^verbatim>\<open>test.js\<close> reads
  \<^verbatim>\<open>stack.blueprintInputs\<close> before the last two outputs; this one does not.
\<close>

definition outputValue :: "stackOutput list option \<Rightarrow> string \<Rightarrow> string option" where
  "outputValue os k =
     (case os of
        None \<Rightarrow> None
      | Some l \<Rightarrow>
          (case find (\<lambda>out. output_id out = k) (rev l) of
             None \<Rightarrow> None
           | Some out \<Rightarrow> (case output_value out of None \<Rightarrow> None
                          | Some v \<Rightarrow> if v = [] then None else Some v)))"

definition provisioningOutput :: "string \<Rightarrow> stack list \<Rightarrow> string option" where
  "provisioningOutput k ms =
     (let provisioning = filter (\<lambda>s. isOpentofuName (stack_name s)) ms
      in if provisioning = [] then None else outputValue (outputs (last provisioning)) k)"

definition expectedPassThrough :: "stack list \<Rightarrow> string option \<times> string \<times> string" where
  "expectedPassThrough ms =
     (let provisioning = filter (\<lambda>s. isOpentofuName (stack_name s)) ms
      in if provisioning = [] then (None, ''unknown'', ''unknown'')
         else
           (let os = outputs (last provisioning) in
            (outputValue os ''ec2_ip'',
             case outputValue os ''instance_type'' of None \<Rightarrow> ''unknown'' | Some v \<Rightarrow> v,
             case outputValue os ''max_players'' of None \<Rightarrow> ''unknown'' | Some v \<Rightarrow> v)))"

section \<open>The teardown, as the orchestrator sees it\<close>

text \<open>
  The lower-casing above is that of JavaScript on ASCII names only; the statements about
  the lookups of the teardown are made for such names.
\<close>

definition asciiName :: "string \<Rightarrow> bool" where
  "asciiName s = list_all (\<lambda>c. \<not> digit7 c) s"

text \<open>
  The two units of the deployment \<open>token\<close> carry the names \<^verbatim>\<open>Minesible-Ansible-Blueprint-\<close>
  and \<^verbatim>\<open>Minesible-Opentofu-Blueprint-\<close> followed by the token. The lookup for a role accepts
  a stack as \<open>ansibleMatch\<close> and \<open>opentofuMatch\<close> say. A unit is \<open>firstAccepted\<close> when it
  is in the listing and the lookup accepts no stack listed before it.
\<close>

definition ansibleMatch :: "string \<Rightarrow> stack \<Rightarrow> bool" where
  "ansibleMatch token = roleMatch (''Minesible-Ansible-Blueprint-'' @ token) token ''ansible''"

definition opentofuMatch :: "string \<Rightarrow> stack \<Rightarrow> bool" where
  "opentofuMatch token = roleMatch (''Minesible-Opentofu-Blueprint-'' @ token) token ''opentofu''"

definition firstAccepted :: "(stack \<Rightarrow> bool) \<Rightarrow> stack \<Rightarrow> stack list \<Rightarrow> bool" where
  "firstAccepted accepts u listing =
     (u \<in> set listing \<and> list_all (\<lambda>s. \<not> accepts s) (takeWhile (\<lambda>s. s \<noteq> u) listing))"

text \<open>
  What the optional world save adds to the call log and does to the world \<open>w\<close> of the
  client: nothing; or the task trigger; or the task trigger and the wait of 10 seconds.
\<close>

definition saveOutcome :: "'w client \<Rightarrow> string \<Rightarrow> 'w \<Rightarrow> event list \<Rightarrow> 'w \<Rightarrow> bool" where
  "saveOutcome cl ansibleId w save w' =
     ((save = [] \<and> w' = w) \<or>
      (save = [Call (TaskTrigger ansibleId saveCommand)] \<and>
       w' = snd (taskTrigger cl ansibleId saveCommand w)) \<or>
      (save = [Call (TaskTrigger ansibleId saveCommand), Sleep 10000] \<and>
       w' = elapse cl 10000 (snd (taskTrigger cl ansibleId saveCommand w))))"

text \<open>
  The entries that a delete call leaves in \<^verbatim>\<open>destroyResults\<close>, by the answer of the client.
\<close>

definition recorded :: "string \<Rightarrow> string \<Rightarrow> string + string option \<Rightarrow> destroyResult list" where
  "recorded tag sid answer =
     (case answer of
        Inl e \<Rightarrow> [DestroyFailed tag sid e]
      | Inr None \<Rightarrow> [Destroyed tag sid None, DestroyFailed tag sid (nullReadError ''id'')]
      | Inr (Some i) \<Rightarrow> [Destroyed tag sid (Some i)])"

section \<open>Concrete inputs\<close>

text \<open>A stack with the management label, for the examples below.\<close>

definition mkStack :: "string \<Rightarrow> string \<Rightarrow> string \<Rightarrow> int \<Rightarrow> stackOutput list option \<Rightarrow> stack" where
  "mkStack i n st t os =
     \<lparr>stack_id = i, stack_name = n, state = st, createdAt = t, outputs = os,
      labels = Some [''minesible'']\<rparr>"

text \<open>
  A client over a world that counts the calls made. It knows three stacks: a group handle
  \<^verbatim>\<open>minesible-ab12\<close> and the two stacks of the blueprint deployment \<^verbatim>\<open>ab12\<close>. Deleting a stack
  whose id is in \<open>failing\<close> throws; every other operation succeeds.
\<close>

definition demoStacks :: "stack list" where
  "demoStacks =
     [mkStack ''s0'' ''minesible-ab12'' ''FINISHED'' 3 None,
      mkStack ''s1'' ''Minesible-Opentofu-Blueprint-ab12'' ''FINISHED'' 5
        (Some [\<lparr>output_id = ''ec2_ip'', output_value = Some ''1.2.3.4''\<rparr>]),
      mkStack ''s2'' ''Minesible-Ansible-Blueprint-ab12'' ''FINISHED'' 7 None]"

definition demoClient :: "string list \<Rightarrow> nat client" where
  "demoClient failing =
     \<lparr>getStack = (\<lambda>i w. (Inr (find (\<lambda>s. stack_id s = i) demoStacks), Suc w)),
      getAllStacks = (\<lambda>w. (Inr demoStacks, Suc w)),
      stackDelete = (\<lambda>i w. (if i \<in> set failing then Inl ''stack is locked'' else Inr (Some i), Suc w)),
      taskTrigger = (\<lambda>i c w. (Inr (Some ''task-1''), Suc w)),
      getBlueprint = (\<lambda>i w. (Inr (Some \<lparr>blueprint_id = i, blueprint_name = ''minesible''\<rparr>), Suc w)),
      blueprintCreateStack = (\<lambda>i inputs w. (Inr (Some [''s1'', ''s2'']), Suc w)),
      elapse = (\<lambda>ms w. w)\<rparr>"

definition startRun :: "nat run" where
  "startRun = \<lparr>world = 0, trace = []\<rparr>"

text \<open>
  A client over a world that is a clock: every call takes one tick and a wait takes its
  milliseconds. It answers from the listing given; deleting a stack whose id is in
  \<open>failing\<close> throws.
\<close>

definition listingClient :: "stack list \<Rightarrow> string list \<Rightarrow> int client" where
  "listingClient listing failing =
     \<lparr>getStack = (\<lambda>i w. (Inr (find (\<lambda>s. stack_id s = i) listing), w + 1)),
      getAllStacks = (\<lambda>w. (Inr listing, w + 1)),
      stackDelete = (\<lambda>i w. (if i \<in> set failing then Inl ''stack is locked'' else Inr (Some i), w + 1)),
      taskTrigger = (\<lambda>i c w. (Inr (Some ''task-1''), w + 1)),
      getBlueprint = (\<lambda>i w. (Inr (Some \<lparr>blueprint_id = i, blueprint_name = ''minesible''\<rparr>), w + 1)),
      blueprintCreateStack = (\<lambda>i inputs w. (Inr (Some [''s1'', ''s2'']), w + 1)),
      elapse = (\<lambda>ms w. w + int ms)\<rparr>"

definition freshRun :: "int run" where
  "freshRun = \<lparr>world = 0, trace = []\<rparr>"

text \<open>
  A listing in which the Ansible stack of another deployment, \<^verbatim>\<open>zab12\<close>, stands before the
  two stacks of the deployment \<^verbatim>\<open>ab12\<close>.
\<close>

definition ambiguousStacks :: "stack list" where
  "ambiguousStacks =
     [mkStack ''s0'' ''minesible-ab12'' ''FINISHED'' 3 None,
      mkStack ''s9'' ''Minesible-Ansible-Blueprint-zab12'' ''FINISHED'' 4 None,
      mkStack ''s1'' ''Minesible-Opentofu-Blueprint-ab12'' ''FINISHED'' 5 None,
      mkStack ''s2'' ''Minesible-Ansible-Blueprint-ab12'' ''FINISHED'' 7 None]"

text \<open>An OpenTofu stack that exposes the three outputs.\<close>

definition sizedStacks :: "stack list" where
  "sizedStacks =
     [mkStack ''s1'' ''X-Opentofu-Blueprint-ab12'' ''FINISHED'' 5
        (Some [\<lparr>output_id = ''ec2_ip'', output_value = Some ''1.2.3.4''\<rparr>,
               \<lparr>output_id = ''instance_type'', output_value = Some ''t3.medium''\<rparr>,
               \<lparr>output_id = ''max_players'', output_value = Some ''20''\<rparr>])]"

text \<open>
  An exchange service over a world that is the clock itself; it hands out the token given.
\<close>

definition tokenService :: "string \<Rightarrow> nat auth" where
  "tokenService jwt = \<lparr>dateNow = (\<lambda>w. w), apiKeyUser = (\<lambda>w. (Inr jwt, w))\<rparr>"

definition startSession :: "nat \<Rightarrow> nat session" where
  "startSession now = \<lparr>cache = initialCache, clockWorld = now, exchanges = 0\<rparr>"

text \<open>
  Four stacks: the two of the blueprint deployment \<^verbatim>\<open>ab12\<close> (the Ansible stack listed
  first), a manual Ansible stack, and the Ansible stack of the deployment \<^verbatim>\<open>7\<close>.
\<close>

definition scenarioStacks :: "stack list" where
  "scenarioStacks =
     [mkStack ''s2'' ''X-Ansible-Blueprint-ab12'' ''FINISHED'' 7 None,
      mkStack ''s1'' ''X-Opentofu-Blueprint-ab12'' ''FINISHED'' 5
        (Some [\<lparr>output_id = ''ec2_ip'', output_value = Some ''1.2.3.4''\<rparr>]),
      mkStack ''s3'' ''Lobby-Ansible'' ''APPLYING'' 9 None,
      mkStack ''s4'' ''Y-Ansible-Blueprint-7'' ''PLANNING'' 11 None]"

section \<open>Aggregate status: the precedence table\<close>

text \<open>
  Claim C4, as amended: for the pair (Applying, Missing), one member applying and the
  other absent, the derived status is \<^verbatim>\<open>Deploying\<close>, on either side: the Applying rule comes
  before the Missing rule.
\<close>

theorem applying_with_missing_is_deploying:
  "determineOverallStatus ''APPLYING'' (statusOrMissing None) = ''Deploying'' \<and>
   determineOverallStatus (statusOrMissing None) ''APPLYING'' = ''Deploying''"
  by (simp add: determineOverallStatus_def statusOrMissing_def)

text \<open>
  Claim C4, as stated, fails: for (Applying, Missing) the derived status is not
  \<^verbatim>\<open>Incomplete\<close>.
\<close>

theorem applying_with_missing_not_incomplete:
  "determineOverallStatus ''APPLYING'' ''Missing'' \<noteq> ''Incomplete''"
  by (simp add: determineOverallStatus_def)

section \<open>Deploy: validation of the request\<close>

text \<open>
  Claim C10: when any of \<^verbatim>\<open>instanceType\<close>, \<^verbatim>\<open>s3Bucket\<close>, \<^verbatim>\<open>motd\<close>, \<^verbatim>\<open>maxPlayers\<close> is absent or
  falsy, the handler answers 400 with \<^verbatim>\<open>Missing required fields\<close> and leaves the run as it
  was: no call reaches the orchestrator. A \<^verbatim>\<open>maxPlayers\<close> of 0 is such a value.
\<close>

theorem deploy_rejects_missing_fields:
  assumes "\<not> truthy (body_instanceType body) \<or> \<not> truthy (body_s3Bucket body) \<or>
           \<not> truthy (body_motd body) \<or> \<not> truthy (body_maxPlayers body)"
  shows "deploy cl body st = (DeployRejected 400 ''Missing required fields'', st)"
  using assms by (simp add: deploy_def)

text \<open>Witness for C10: every field given, \<^verbatim>\<open>maxPlayers\<close> equal to 0.\<close>

theorem deploy_rejects_missing_fields_witness:
  "\<not> truthy (body_maxPlayers
       \<lparr>body_instanceType = JStr ''t3.medium'', body_s3Bucket = JStr ''saves'',
        body_motd = JStr ''hi'', body_maxPlayers = JNum 0\<rparr>) \<and>
   deploy (demoClient [])
     \<lparr>body_instanceType = JStr ''t3.medium'', body_s3Bucket = JStr ''saves'',
      body_motd = JStr ''hi'', body_maxPlayers = JNum 0\<rparr> startRun =
   (DeployRejected 400 ''Missing required fields'', startRun)"
  using deploy_rejects_missing_fields
    [of "\<lparr>body_instanceType = JStr ''t3.medium'', body_s3Bucket = JStr ''saves'',
          body_motd = JStr ''hi'', body_maxPlayers = JNum 0\<rparr>" "demoClient []" startRun]
  by simp

section \<open>The token cache: reuse within the validity window\<close>

text \<open>
  A call whose exchange request throws sends that one request, rethrows, and leaves the
  cache as it was.
\<close>

lemma failed_exchange_stores_nothing:
  assumes "currentJWT (cache s) = None \<or>
           (\<exists>expiry. jwtExpiry (cache s) = Some expiry \<and> expiry \<le> dateNow env (clockWorld s))"
    and "apiKeyUser env (clockWorld s) = (Inl e, w1)"
  shows "getJWTToken env s = (Inl e, s\<lparr>clockWorld := w1, exchanges := exchanges s + 1\<rparr>)"
    and "cache (snd (getJWTToken env s)) = cache s"
proof -
  have "cachedToken (cache s) (dateNow env (clockWorld s)) = None"
    using assms(1) by (auto simp add: cachedToken_def split: option.splits)
  then show "getJWTToken env s = (Inl e, s\<lparr>clockWorld := w1, exchanges := exchanges s + 1\<rparr>)"
    using assms(2) by (simp add: getJWTToken_def)
  then show "cache (snd (getJWTToken env s)) = cache s" by simp
qed

text \<open>
  Claim C9: a call made when the cache holds no token, or a token whose expiry has been
  reached, and whose exchange hands out a (non-empty) token, sends one exchange request and
  stores the token with expiry equal to the time read once the exchange has returned plus
  the validity window of 50 minutes. A second call made at any time before that expiry
  returns the identical token and leaves the session as it is: it sends no request, so the
  two calls cause exactly one exchange.
\<close>

theorem token_reused_within_window:
  assumes miss: "currentJWT (cache s) = None \<or>
                 (\<exists>expiry. jwtExpiry (cache s) = Some expiry \<and> expiry \<le> dateNow env (clockWorld s))"
    and exch: "apiKeyUser env (clockWorld s) = (Inr jwt, w1)"
    and nonempty: "jwt \<noteq> []"
    and within: "dateNow env w2 < dateNow env w1 + validityWindow"
  shows "\<exists>s1. getJWTToken env s = (Inr jwt, s1) \<and>
           cache s1 = \<lparr>currentJWT = Some jwt, jwtExpiry = Some (dateNow env w1 + 50 * 60 * 1000)\<rparr> \<and>
           exchanges s1 = exchanges s + 1 \<and>
           getJWTToken env (s1\<lparr>clockWorld := w2\<rparr>) = (Inr jwt, s1\<lparr>clockWorld := w2\<rparr>) \<and>
           exchanges (snd (getJWTToken env (s1\<lparr>clockWorld := w2\<rparr>))) = exchanges s + 1"
proof -
  let ?s1 = "\<lparr>cache = \<lparr>currentJWT = Some jwt, jwtExpiry = Some (dateNow env w1 + validityWindow)\<rparr>,
               clockWorld = w1, exchanges = exchanges s + 1\<rparr>"
  have missed: "cachedToken (cache s) (dateNow env (clockWorld s)) = None"
    using miss by (auto simp add: cachedToken_def split: option.splits)
  have first: "getJWTToken env s = (Inr jwt, ?s1)"
    using missed exch by (simp add: getJWTToken_def)
  have hit: "cachedToken (cache ?s1) (dateNow env w2) = Some jwt"
    using nonempty within by (auto simp add: cachedToken_def)
  have second: "getJWTToken env (?s1\<lparr>clockWorld := w2\<rparr>) = (Inr jwt, ?s1\<lparr>clockWorld := w2\<rparr>)"
    using hit by (simp add: getJWTToken_def)
  have window: "validityWindow = 50 * 60 * 1000" by (simp add: validityWindow_def)
  show ?thesis
    using first second window by (intro exI[of _ ?s1]) simp
qed

text \<open>
  Witness for C9: a first call at time 1000 on the empty cache, a second call at time 2000.
\<close>

theorem token_reused_within_window_witness:
  "\<exists>s1. getJWTToken (tokenService ''tok'') (startSession 1000) = (Inr ''tok'', s1) \<and>
        cache s1 = \<lparr>currentJWT = Some ''tok'', jwtExpiry = Some 3001000\<rparr> \<and>
        exchanges s1 = 1 \<and>
        getJWTToken (tokenService ''tok'') (s1\<lparr>clockWorld := 2000\<rparr>) =
          (Inr ''tok'', s1\<lparr>clockWorld := 2000\<rparr>) \<and>
        exchanges (snd (getJWTToken (tokenService ''tok'') (s1\<lparr>clockWorld := 2000\<rparr>))) = 1"
  using token_reused_within_window
    [of "startSession 1000" "tokenService ''tok''" "''tok''" 1000 2000]
  by (simp add: tokenService_def startSession_def initialCache_def validityWindow_def)

section \<open>Teardown of a group\<close>

lemma tryDestroy_eq:
  "tryDestroy cl tag s st =
     (recorded tag (stack_id s) (fst (stackDelete cl (stack_id s) (world st))),
      \<lparr>world = snd (stackDelete cl (stack_id s) (world st)),
       trace = trace st @ [Call (StackDelete (stack_id s) True)]\<rparr>)"
  by (cases "stackDelete cl (stack_id s) (world st)")
    (simp add: tryDestroy_def spaceliftQuery_def recorded_def split: sum.splits option.splits)

lemma deleteStacks_both:
  "deleteStacks cl (Some a) (Some t) st =
     (recorded ''ansible'' (stack_id a) (fst (stackDelete cl (stack_id a) (world st))) @
      recorded ''opentofu'' (stack_id t)
        (fst (stackDelete cl (stack_id t)
               (elapse cl 10000 (snd (stackDelete cl (stack_id a) (world st)))))),
      \<lparr>world = snd (stackDelete cl (stack_id t)
                 (elapse cl 10000 (snd (stackDelete cl (stack_id a) (world st))))),
       trace = trace st @ [Call (StackDelete (stack_id a) True), Sleep 10000,
                           Call (StackDelete (stack_id t) True)]\<rparr>)"
  by (simp add: deleteStacks_def tryDestroy_eq sleep_def)


lemma saveWorldFirst_outcome:
  "\<exists>save w'. snd (saveWorldFirst cl saveWorld (Some a) st) =
                 \<lparr>world = w', trace = trace st @ save\<rparr> \<and>
               saveOutcome cl (stack_id a) (world st) save w'"
proof (cases "truthy saveWorld \<and> state a = ''FINISHED''")
  case False
  then have "snd (saveWorldFirst cl saveWorld (Some a) st) = \<lparr>world = world st, trace = trace st @ []\<rparr>"
    by (auto simp add: saveWorldFirst_def)
  then show ?thesis
    by (intro exI[of _ "[]"] exI[of _ "world st"]) (simp add: saveOutcome_def)
next
  case True
  let ?trigger = "Call (TaskTrigger (stack_id a) saveCommand)"
  obtain r w where resp: "taskTrigger cl (stack_id a) saveCommand (world st) = (r, w)"
    by (cases "taskTrigger cl (stack_id a) saveCommand (world st)")
  show ?thesis
  proof (cases "\<exists>taskId. r = Inr (Some taskId)")
    case True
    then have "snd (saveWorldFirst cl saveWorld (Some a) st) =
        \<lparr>world = elapse cl 10000 w, trace = trace st @ [?trigger, Sleep 10000]\<rparr>"
      using \<open>truthy saveWorld \<and> state a = ''FINISHED''\<close> resp
      by (auto simp add: saveWorldFirst_def spaceliftQuery_def sleep_def)
    then show ?thesis
      using resp
      by (intro exI[of _ "[?trigger, Sleep 10000]"] exI[of _ "elapse cl 10000 w"])
        (simp add: saveOutcome_def)
  next
    case False
    then have "snd (saveWorldFirst cl saveWorld (Some a) st) =
        \<lparr>world = w, trace = trace st @ [?trigger]\<rparr>"
      using \<open>truthy saveWorld \<and> state a = ''FINISHED''\<close> resp
      by (auto simp add: saveWorldFirst_def spaceliftQuery_def split: sum.splits option.splits)
    then show ?thesis
      using resp
      by (intro exI[of _ "[?trigger]"] exI[of _ w]) (simp add: saveOutcome_def)
  qed
qed

lemma groupDeletion_unfold:
  assumes "getAllStacks cl (world st) = (Inr allStacks, w2)"
  shows "groupDeletion cl target saveWorld st =
     (let st1 = \<lparr>world = w2, trace = trace st @ [Call GetAllStacks]\<rparr>;
          ansibleStack = findAnsible (lastSegment (stack_name target)) allStacks;
          openTofuStack = findOpenTofu (lastSegment (stack_name target)) allStacks;
          saved = saveWorldFirst cl saveWorld ansibleStack st1;
          deleted = deleteStacks cl ansibleStack openTofuStack (snd saved)
      in (GroupDone (fst saved @ ''Server deletion initiated.'') (fst deleted)
            (worldSavedValue saveWorld (fst saved)), snd deleted))"
  using assms
  by (simp add: groupDeletion_def spaceliftQuery_def Let_def split: prod.splits)

lemma deleteServer_group:
  assumes "getStack cl serverId (world st) = (Inr (Some target), w1)"
    and "labels target = Some ls" and "''minesible'' \<in> set ls"
    and "\<not> includesStr (stack_name target) ''Opentofu''"
    and "\<not> includesStr (stack_name target) ''Ansible''"
  shows "deleteServer cl serverId saveWorld st =
           groupDeletion cl target saveWorld \<lparr>world = w1, trace = trace st @ [Call (GetStack serverId)]\<rparr>"
  using assms by (simp add: deleteServer_def spaceliftQuery_def)

lemma find_firstAccepted:
  assumes "firstAccepted accepts u listing" and "accepts u"
  shows "find accepts listing = Some u"
  using assms(1)
proof (induction listing)
  case Nil
  then show ?case by (simp add: firstAccepted_def)
next
  case (Cons x xs)
  show ?case
  proof (cases "x = u")
    case True
    then show ?thesis using assms(2) by simp
  next
    case False
    then have "\<not> accepts x" and "firstAccepted accepts u xs"
      using Cons.prems by (simp_all add: firstAccepted_def)
    then show ?thesis using Cons.IH by simp
  qed
qed

lemma findAnsible_unit:
  assumes "stack_name a = ''Minesible-Ansible-Blueprint-'' @ token"
    and "firstAccepted (ansibleMatch token) a listing"
  shows "findAnsible token listing = Some a"
proof -
  have "ansibleMatch token a" using assms(1) by (simp add: ansibleMatch_def roleMatch_def)
  then show ?thesis
    using find_firstAccepted[OF assms(2)] by (simp add: findAnsible_def findRole_def ansibleMatch_def)
qed

lemma findOpenTofu_unit:
  assumes "stack_name t = ''Minesible-Opentofu-Blueprint-'' @ token"
    and "firstAccepted (opentofuMatch token) t listing"
  shows "findOpenTofu token listing = Some t"
proof -
  have "opentofuMatch token t" using assms(1) by (simp add: opentofuMatch_def roleMatch_def)
  then show ?thesis
    using find_firstAccepted[OF assms(2)]
    by (simp add: findOpenTofu_def findRole_def opentofuMatch_def)
qed

text \<open>The group deletion once both lookups are known.\<close>

lemma group_run:
  assumes target: "getStack cl serverId w0 = (Inr (Some target), w1)"
    and labelled: "labels target = Some ls" "''minesible'' \<in> set ls"
    and group_mode: "\<not> includesStr (stack_name target) ''Opentofu''"
      "\<not> includesStr (stack_name target) ''Ansible''"
    and listing: "getAllStacks cl w1 = (Inr allStacks, w2)"
    and ansible: "findAnsible (lastSegment (stack_name target)) allStacks = Some a"
  shows "\<exists>save w3 msg.
           saveOutcome cl (stack_id a) w2 save w3 \<and>
           deleteServer cl serverId saveWorld \<lparr>world = w0, trace = tr\<rparr> =
             (GroupDone (msg @ ''Server deletion initiated.'')
                (fst (deleteStacks cl (Some a)
                        (findOpenTofu (lastSegment (stack_name target)) allStacks)
                        \<lparr>world = w3,
                         trace = tr @ [Call (GetStack serverId), Call GetAllStacks] @ save\<rparr>))
                (worldSavedValue saveWorld msg),
              snd (deleteStacks cl (Some a)
                     (findOpenTofu (lastSegment (stack_name target)) allStacks)
                     \<lparr>world = w3,
                      trace = tr @ [Call (GetStack serverId), Call GetAllStacks] @ save\<rparr>))"
proof -
  let ?st0 = "\<lparr>world = w0, trace = tr\<rparr>"
  let ?st1 = "\<lparr>world = w1, trace = tr @ [Call (GetStack serverId)]\<rparr>"
  let ?st2 = "\<lparr>world = w2, trace = trace ?st1 @ [Call GetAllStacks]\<rparr>"
  let ?ot = "findOpenTofu (lastSegment (stack_name target)) allStacks"
  let ?saved = "saveWorldFirst cl saveWorld (Some a) ?st2"
  have step1: "deleteServer cl serverId saveWorld ?st0 = groupDeletion cl target saveWorld ?st1"
    using deleteServer_group[of cl serverId ?st0 target w1 ls saveWorld]
      target labelled group_mode by simp
  have step2: "groupDeletion cl target saveWorld ?st1 =
      (GroupDone (fst ?saved @ ''Server deletion initiated.'')
         (fst (deleteStacks cl (Some a) ?ot (snd ?saved)))
         (worldSavedValue saveWorld (fst ?saved)), snd (deleteStacks cl (Some a) ?ot (snd ?saved)))"
    using groupDeletion_unfold[of cl ?st1 allStacks w2 target saveWorld] listing ansible
    by (simp add: Let_def)
  obtain save w3 where saved: "snd ?saved = \<lparr>world = w3, trace = trace ?st2 @ save\<rparr>"
      and outcome: "saveOutcome cl (stack_id a) (world ?st2) save w3"
    using saveWorldFirst_outcome[of cl saveWorld a ?st2] by blast
  show ?thesis
    using step1 step2 saved outcome
    by (intro exI[of _ save] exI[of _ w3] exI[of _ "fst ?saved"]) simp
qed

text \<open>
  The order of the teardown: when the two units of the deployment stand in the listing
  under their exact names and the lookup of each role accepts no stack listed before its
  unit, the client receives the delete call for the Ansible unit, then 10 seconds elapse,
  then it receives the delete call for the OpenTofu unit; the world save, when asked for,
  comes before all three.
\<close>

lemma units_destroyed_in_order:
  assumes names: "asciiName (stack_name target)"
      "list_all (\<lambda>s. asciiName (stack_name s)) allStacks"
    and target: "getStack cl serverId w0 = (Inr (Some target), w1)"
    and labelled: "labels target = Some ls" "''minesible'' \<in> set ls"
    and group_mode: "\<not> includesStr (stack_name target) ''Opentofu''"
      "\<not> includesStr (stack_name target) ''Ansible''"
    and listing: "getAllStacks cl w1 = (Inr allStacks, w2)"
    and ansible: "stack_name a = ''Minesible-Ansible-Blueprint-'' @ lastSegment (stack_name target)"
      "firstAccepted (ansibleMatch (lastSegment (stack_name target))) a allStacks"
    and opentofu: "stack_name t = ''Minesible-Opentofu-Blueprint-'' @ lastSegment (stack_name target)"
      "firstAccepted (opentofuMatch (lastSegment (stack_name target))) t allStacks"
  shows "\<exists>save w3.
           saveOutcome cl (stack_id a) w2 save w3 \<and>
           snd (deleteServer cl serverId saveWorld \<lparr>world = w0, trace = tr\<rparr>) =
             \<lparr>world = snd (stackDelete cl (stack_id t)
                        (elapse cl 10000 (snd (stackDelete cl (stack_id a) w3)))),
              trace = tr @ [Call (GetStack serverId), Call GetAllStacks] @ save @
                      [Call (StackDelete (stack_id a) True), Sleep 10000,
                       Call (StackDelete (stack_id t) True)]\<rparr>"
proof -
  have fa: "findAnsible (lastSegment (stack_name target)) allStacks = Some a"
    using ansible by (rule findAnsible_unit)
  have ft: "findOpenTofu (lastSegment (stack_name target)) allStacks = Some t"
    using opentofu by (rule findOpenTofu_unit)
  obtain save w3 msg where outcome: "saveOutcome cl (stack_id a) w2 save w3"
    and run: "deleteServer cl serverId saveWorld \<lparr>world = w0, trace = tr\<rparr> =
      (GroupDone (msg @ ''Server deletion initiated.'')
         (fst (deleteStacks cl (Some a)
                 (findOpenTofu (lastSegment (stack_name target)) allStacks)
                 \<lparr>world = w3, trace = tr @ [Call (GetStack serverId), Call GetAllStacks] @ save\<rparr>))
         (worldSavedValue saveWorld msg),
       snd (deleteStacks cl (Some a)
              (findOpenTofu (lastSegment (stack_name target)) allStacks)
              \<lparr>world = w3, trace = tr @ [Call (GetStack serverId), Call GetAllStacks] @ save\<rparr>))"
    using group_run[OF target labelled group_mode listing fa, of saveWorld tr] by blast
  have "snd (deleteServer cl serverId saveWorld \<lparr>world = w0, trace = tr\<rparr>) =
      \<lparr>world = snd (stackDelete cl (stack_id t)
                 (elapse cl 10000 (snd (stackDelete cl (stack_id a) w3)))),
       trace = tr @ [Call (GetStack serverId), Call GetAllStacks] @ save @
               [Call (StackDelete (stack_id a) True), Sleep 10000,
                Call (StackDelete (stack_id t) True)]\<rparr>"
    using run ft by (simp add: deleteStacks_both)
  then show ?thesis using outcome by blast
qed

lemma demo_names:
  "asciiName (stack_name (mkStack ''s0'' ''minesible-ab12'' ''FINISHED'' 3 None))"
  "list_all (\<lambda>s. asciiName (stack_name s)) demoStacks"
  by code_simp+

lemma demo_target:
  "getStack (listingClient demoStacks failing) ''s0'' 0 =
     (Inr (Some (mkStack ''s0'' ''minesible-ab12'' ''FINISHED'' 3 None)), 1)"
  by (simp add: listingClient_def demoStacks_def mkStack_def)

lemma demo_group_mode:
  "labels (mkStack ''s0'' ''minesible-ab12'' ''FINISHED'' 3 None) = Some [''minesible'']"
  "\<not> includesStr (stack_name (mkStack ''s0'' ''minesible-ab12'' ''FINISHED'' 3 None)) ''Opentofu''"
  "\<not> includesStr (stack_name (mkStack ''s0'' ''minesible-ab12'' ''FINISHED'' 3 None)) ''Ansible''"
  by (simp_all add: mkStack_def)

lemma demo_listing: "getAllStacks (listingClient demoStacks failing) 1 = (Inr demoStacks, 2)"
  by (simp add: listingClient_def)

lemma demo_ansible_unit:
  "stack_name (mkStack ''s2'' ''Minesible-Ansible-Blueprint-ab12'' ''FINISHED'' 7 None) =
     ''Minesible-Ansible-Blueprint-'' @
       lastSegment (stack_name (mkStack ''s0'' ''minesible-ab12'' ''FINISHED'' 3 None))"
  "firstAccepted
     (ansibleMatch (lastSegment (stack_name (mkStack ''s0'' ''minesible-ab12'' ''FINISHED'' 3 None))))
     (mkStack ''s2'' ''Minesible-Ansible-Blueprint-ab12'' ''FINISHED'' 7 None) demoStacks"
  by code_simp+

lemma demo_opentofu_unit:
  "stack_name (mkStack ''s1'' ''Minesible-Opentofu-Blueprint-ab12'' ''FINISHED'' 5
          (Some [\<lparr>output_id = ''ec2_ip'', output_value = Some ''1.2.3.4''\<rparr>])) =
     ''Minesible-Opentofu-Blueprint-'' @
       lastSegment (stack_name (mkStack ''s0'' ''minesible-ab12'' ''FINISHED'' 3 None))"
  "firstAccepted
     (opentofuMatch (lastSegment (stack_name (mkStack ''s0'' ''minesible-ab12'' ''FINISHED'' 3 None))))
     (mkStack ''s1'' ''Minesible-Opentofu-Blueprint-ab12'' ''FINISHED'' 5
          (Some [\<lparr>output_id = ''ec2_ip'', output_value = Some ''1.2.3.4''\<rparr>])) demoStacks"
  by code_simp+


lemma demo_opentofu:
  "findOpenTofu (lastSegment (stack_name (mkStack ''s0'' ''minesible-ab12'' ''FINISHED'' 3 None)))
     demoStacks =
   Some (mkStack ''s1'' ''Minesible-Opentofu-Blueprint-ab12'' ''FINISHED'' 5
          (Some [\<lparr>output_id = ''ec2_ip'', output_value = Some ''1.2.3.4''\<rparr>]))"
  by code_simp

text \<open>
  The group handle \<^verbatim>\<open>minesible-ab12\<close> deleted with the world save asked for, every call
  succeeding: seven steps of the clock, two of them waits.
\<close>

lemma demo_units_destroyed_in_order:
  "snd (deleteServer (listingClient demoStacks []) ''s0'' (JBool True) freshRun) =
     \<lparr>world = 20005,
      trace = [Call (GetStack ''s0''), Call GetAllStacks,
               Call (TaskTrigger ''s2'' saveCommand), Sleep 10000,
               Call (StackDelete ''s2'' True), Sleep 10000, Call (StackDelete ''s1'' True)]\<rparr>"
proof -
  have label: "''minesible'' \<in> set [''minesible'']" by simp
  have shape: "\<exists>save w3.
      saveOutcome (listingClient demoStacks []) ''s2'' 2 save w3 \<and>
      snd (deleteServer (listingClient demoStacks []) ''s0'' (JBool True) freshRun) =
        \<lparr>world = w3 + 1 + 10000 + 1,
         trace = [Call (GetStack ''s0''), Call GetAllStacks] @ save @
                 [Call (StackDelete ''s2'' True), Sleep 10000, Call (StackDelete ''s1'' True)]\<rparr>"
    using units_destroyed_in_order
      [OF demo_names demo_target[where failing = "[]"] demo_group_mode(1) label
          demo_group_mode(2) demo_group_mode(3) demo_listing[where failing = "[]"]
          demo_ansible_unit demo_opentofu_unit,
        where tr = "[]" and saveWorld = "JBool True"]
    by (simp add: freshRun_def mkStack_def listingClient_def)
  have run: "snd (deleteServer (listingClient demoStacks []) ''s0'' (JBool True) freshRun) =
     \<lparr>world = 20005,
      trace = [Call (GetStack ''s0''), Call GetAllStacks,
               Call (TaskTrigger ''s2'' saveCommand), Sleep 10000,
               Call (StackDelete ''s2'' True), Sleep 10000, Call (StackDelete ''s1'' True)]\<rparr>"
    by code_simp
  show ?thesis using shape run by simp
qed

text \<open>
  Claim C2 at a failing input: the listing holds both units of the deployment \<^verbatim>\<open>ab12\<close>,
  \<^verbatim>\<open>s1\<close> and \<^verbatim>\<open>s2\<close>, and before them the Ansible stack \<^verbatim>\<open>s9\<close> of the deployment \<^verbatim>\<open>zab12\<close>, whose
  name holds \<^verbatim>\<open>ab12\<close> and \<^verbatim>\<open>ansible\<close>. The deletion of the group \<^verbatim>\<open>minesible-ab12\<close> sends the delete
  call for \<^verbatim>\<open>s9\<close>, waits, and sends the delete call for \<^verbatim>\<open>s1\<close>; no delete call is sent for the
  Ansible unit \<^verbatim>\<open>s2\<close> of the group.
\<close>

theorem first_match_deletes_other_group:
  "map (\<lambda>s. (stack_id s, stack_name s)) ambiguousStacks =
     [(''s0'', ''minesible-ab12''), (''s9'', ''Minesible-Ansible-Blueprint-zab12''),
      (''s1'', ''Minesible-Opentofu-Blueprint-ab12''), (''s2'', ''Minesible-Ansible-Blueprint-ab12'')] \<and>
   deleteServer (listingClient ambiguousStacks []) ''s0'' JUndefined freshRun =
     (GroupDone ''World not saved (user choice). Server deletion initiated.''
        [Destroyed ''ansible'' ''s9'' (Some ''s9''), Destroyed ''opentofu'' ''s1'' (Some ''s1'')]
        JUndefined,
      \<lparr>world = 10004,
       trace = [Call (GetStack ''s0''), Call GetAllStacks, Call (StackDelete ''s9'' True),
                Sleep 10000, Call (StackDelete ''s1'' True)]\<rparr>)"
  by code_simp



section \<open>Grouping: one group per key\<close>

lemma addStack_skip: "\<not> validKey (groupKeyOf s) \<Longrightarrow> addStack gs s = gs"
  by (auto simp add: addStack_def validKey_def groupKeyOf_def split: prod.splits)

lemma map_of_addStack:
  assumes "validKey (groupKeyOf s)" and "classify (stack_name s) = (k, n, m)"
  shows "map_of (addStack gs s) =
     (map_of gs)(k \<mapsto> refreshStatus (attach (case map_of gs k of None \<Rightarrow> newGroup k n m | Some g0 \<Rightarrow> g0) s))"
  using assms
  by (simp add: addStack_def validKey_def groupKeyOf_def Let_def update_conv')

lemma groupsObject_snoc: "groupsObject (xs @ [s]) = addStack (groupsObject xs) s"
  by (simp add: groupsObject_def)

lemma membersOf_snoc:
  "membersOf (xs @ [s]) k = (if groupKeyOf s = k then membersOf xs k @ [s] else membersOf xs k)"
  by (simp add: membersOf_def)

lemma attachAll_snoc: "attachAll g (ms @ [s]) = refreshStatus (attach (attachAll g ms) s)"
  by (simp add: attachAll_def)

lemma groupFor_snoc_new:
  assumes "classify (stack_name s) = (k', n, m)"
  shows "groupFor k [s] = Some (refreshStatus (attach (newGroup k n m) s))"
  using assms by (simp add: groupFor_def attachAll_def)

lemma groupFor_snoc_old:
  assumes "groupFor k ms = Some g"
  shows "groupFor k (ms @ [s]) = Some (refreshStatus (attach g s))"
  using assms
  by (cases ms) (auto simp add: groupFor_def attachAll_def split: prod.splits)

lemma groupFor_None: "groupFor k ms = None \<longleftrightarrow> ms = []"
  by (cases ms) (auto simp add: groupFor_def split: prod.splits)

lemma map_of_groupsObject:
  "map_of (groupsObject xs) k = (if validKey k then groupFor k (membersOf xs k) else None)"
proof (induction xs arbitrary: k rule: rev_induct)
  case Nil
  then show ?case by (simp add: groupsObject_def membersOf_def groupFor_def)
next
  case (snoc s xs)
  show ?case
  proof (cases "validKey (groupKeyOf s)")
    case False
    then have "groupKeyOf s \<noteq> k" if "validKey k" using that by auto
    then show ?thesis
      using False snoc.IH[of k] by (simp add: groupsObject_snoc addStack_skip membersOf_snoc)
  next
    case True
    obtain ks n m where cl: "classify (stack_name s) = (ks, n, m)"
      by (cases "classify (stack_name s)")
    then have ks: "groupKeyOf s = ks" by (simp add: groupKeyOf_def)
    note upd = map_of_addStack[OF True cl, of "groupsObject xs"]
    show ?thesis
    proof (cases "k = ks")
      case False
      then show ?thesis using upd ks snoc.IH[of k]
        by (simp add: groupsObject_snoc membersOf_snoc)
    next
      case same: True
      have vk: "validKey k" using True ks same by simp
      show ?thesis
      proof (cases "groupFor k (membersOf xs k)")
        case None
        then have "membersOf xs k = []" by (simp add: groupFor_None)
        moreover have "map_of (groupsObject xs) k = None" using snoc.IH[of k] None vk by simp
        ultimately show ?thesis
          using upd ks same vk cl
          by (simp add: groupsObject_snoc membersOf_snoc groupFor_snoc_new[OF cl])
      next
        case (Some g)
        then have "map_of (groupsObject xs) k = Some g" using snoc.IH[of k] vk by simp
        then show ?thesis
          using upd ks same vk groupFor_snoc_old[OF Some, of s]
          by (simp add: groupsObject_snoc membersOf_snoc)
      qed
    qed
  qed
qed

lemma distinct_groupsObject: "distinct (map fst (groupsObject xs))"
proof (induction xs rule: rev_induct)
  case Nil
  then show ?case by (simp add: groupsObject_def)
next
  case (snoc s xs)
  then show ?case
    by (simp add: groupsObject_snoc addStack_def distinct_update Let_def split: prod.splits)
qed

lemma set_insertBy: "set (insertBy cmp x ys) = insert x (set ys)"
  by (induction ys) auto

lemma set_sortBy: "set (sortBy cmp xs) = set xs"
  by (induction xs) (simp_all add: sortBy_def set_insertBy)

lemma set_objectValues: "set (objectValues kvs) = snd ` set kvs"
  by (auto simp add: objectValues_def)

lemma in_groupStacksByBlueprint:
  "g \<in> set (groupStacksByBlueprint lc xs) \<longleftrightarrow>
     (\<exists>k. validKey k \<and> groupFor k (membersOf xs k) = Some g)"
proof -
  have "g \<in> set (groupStacksByBlueprint lc xs) \<longleftrightarrow> (\<exists>k. (k, g) \<in> set (groupsObject xs))"
    by (force simp add: groupStacksByBlueprint_def set_sortBy set_objectValues)
  also have "\<dots> \<longleftrightarrow> (\<exists>k. map_of (groupsObject xs) k = Some g)"
    using distinct_groupsObject[of xs] by (auto dest: map_of_SomeD)
  also have "\<dots> \<longleftrightarrow> (\<exists>k. validKey k \<and> groupFor k (membersOf xs k) = Some g)"
    by (auto simp add: map_of_groupsObject split: if_splits)
  finally show ?thesis .
qed

lemma attach_frame:
  "group_id (attach g s) = group_id g" "group_name (attach g s) = group_name g"
  "isManual (attach g s) = isManual g"
  by (simp_all add: attach_def Let_def)

lemma refreshStatus_frame:
  "group_id (refreshStatus g) = group_id g" "group_name (refreshStatus g) = group_name g"
  "isManual (refreshStatus g) = isManual g" "created (refreshStatus g) = created g"
  "ip (refreshStatus g) = ip g" "instanceType (refreshStatus g) = instanceType g"
  "maxPlayers (refreshStatus g) = maxPlayers g" "opentofu (refreshStatus g) = opentofu g"
  "ansible (refreshStatus g) = ansible g"
  by (simp_all add: refreshStatus_def)

lemma attachAll_frame:
  "group_id (attachAll g ms) = group_id g \<and> group_name (attachAll g ms) = group_name g \<and>
   isManual (attachAll g ms) = isManual g"
  by (induction ms rule: rev_induct) (simp_all add: attachAll_def attach_frame refreshStatus_frame)

lemma attachAll_status:
  "ms \<noteq> [] \<Longrightarrow>
   status (attachAll g ms) =
     determineOverallStatus (statusOrMissing (opentofu (attachAll g ms)))
       (statusOrMissing (ansible (attachAll g ms)))"
  by (cases ms rule: rev_cases) (simp_all add: attachAll_snoc refreshStatus_def)

lemma expectedCreated_snoc:
  "expectedCreated (ms @ [s]) =
     (if takesAnsibleSlot s
      then (if ms = [] then Some (createdAt s) else expectedCreated ms)
      else Some (createdAt s))"
  by (cases ms) (auto simp add: expectedCreated_def Let_def)

lemma expectedCreated_set:
  "ms \<noteq> [] \<Longrightarrow> \<forall>s \<in> set ms. createdAt s \<noteq> 0 \<Longrightarrow> \<not> createdUnset (expectedCreated ms)"
proof -
  assume ne: "ms \<noteq> []" and nz: "\<forall>s \<in> set ms. createdAt s \<noteq> 0"
  have "\<exists>s \<in> set ms. expectedCreated ms = Some (createdAt s)"
  proof (cases "filter (\<lambda>s. \<not> takesAnsibleSlot s) ms = []")
    case True
    then show ?thesis using ne by (cases ms) (auto simp add: expectedCreated_def)
  next
    case False
    then have "last (filter (\<lambda>s. \<not> takesAnsibleSlot s) ms) \<in>
        set (filter (\<lambda>s. \<not> takesAnsibleSlot s) ms)"
      by (rule last_in_set)
    then have "last (filter (\<lambda>s. \<not> takesAnsibleSlot s) ms) \<in> set ms" by simp
    then show ?thesis using False by (auto simp add: expectedCreated_def Let_def)
  qed
  then show ?thesis using nz by (auto simp add: createdUnset_def)
qed

lemma created_attach:
  "created (attach g s) =
     (if takesAnsibleSlot s
      then (if createdUnset (created g) then Some (createdAt s) else created g)
      else Some (createdAt s))"
  by (simp add: attach_def takesAnsibleSlot_def Let_def)

lemma attachAll_created:
  assumes "created g = None" and "\<forall>s \<in> set ms. createdAt s \<noteq> 0"
  shows "created (attachAll g ms) = expectedCreated ms"
  using assms(2)
proof (induction ms rule: rev_induct)
  case Nil
  then show ?case using assms(1) by (simp add: attachAll_def expectedCreated_def)
next
  case (snoc s ms)
  then have IH: "created (attachAll g ms) = expectedCreated ms" by simp
  show ?case
  proof (cases "ms = []")
    case True
    then show ?thesis
      using assms(1) expectedCreated_snoc[of "[]" s]
      by (simp add: attachAll_def refreshStatus_frame created_attach createdUnset_def)
  next
    case False
    then have "\<not> createdUnset (expectedCreated ms)"
      using expectedCreated_set[of ms] snoc.prems by simp
    then show ?thesis
      using IH False
      by (simp add: attachAll_snoc refreshStatus_frame created_attach expectedCreated_snoc)
  qed
qed

lemma reduceOutputs_outputValue:
  "orElse (reduceOutputs os k) None Some = outputValue os k"
proof (cases os)
  case None
  then show ?thesis by (simp add: reduceOutputs_def outputValue_def orElse_def)
next
  case (Some l)
  have "foldl (\<lambda>acc out. acc(output_id out := output_value out)) Map.empty l k =
        (case find (\<lambda>out. output_id out = k) (rev l) of None \<Rightarrow> None | Some out \<Rightarrow> output_value out)"
    by (induction l rule: rev_induct) simp_all
  then show ?thesis using Some
    by (simp add: reduceOutputs_def outputValue_def orElse_def split: option.splits)
qed

lemma orElse_default:
  "orElse v d (\<lambda>x. x) = (case orElse v None Some of None \<Rightarrow> d | Some x \<Rightarrow> x)"
  by (simp add: orElse_def split: option.splits)

lemma expectedPassThrough_snoc:
  "expectedPassThrough (ms @ [s]) =
     (if isOpentofuName (stack_name s)
      then (outputValue (outputs s) ''ec2_ip'',
            case outputValue (outputs s) ''instance_type'' of None \<Rightarrow> ''unknown'' | Some v \<Rightarrow> v,
            case outputValue (outputs s) ''max_players'' of None \<Rightarrow> ''unknown'' | Some v \<Rightarrow> v)
      else expectedPassThrough ms)"
  by (simp add: expectedPassThrough_def Let_def)

lemma passThrough_attach:
  "(ip (attach g s), instanceType (attach g s), maxPlayers (attach g s)) =
     (if isOpentofuName (stack_name s)
      then (outputValue (outputs s) ''ec2_ip'',
            case outputValue (outputs s) ''instance_type'' of None \<Rightarrow> ''unknown'' | Some v \<Rightarrow> v,
            case outputValue (outputs s) ''max_players'' of None \<Rightarrow> ''unknown'' | Some v \<Rightarrow> v)
      else (ip g, instanceType g, maxPlayers g))"
  by (simp add: attach_def Let_def orElse_default[of _ "''unknown''"] reduceOutputs_outputValue)

lemma attachAll_passThrough:
  assumes "ip g = None" "instanceType g = ''unknown''" "maxPlayers g = ''unknown''"
  shows "(ip (attachAll g ms), instanceType (attachAll g ms), maxPlayers (attachAll g ms)) =
           expectedPassThrough ms"
proof (induction ms rule: rev_induct)
  case Nil
  then show ?case using assms by (simp add: attachAll_def expectedPassThrough_def)
next
  case (snoc s ms)
  then show ?case
    using passThrough_attach[of "attachAll g ms" s]
    by (simp add: attachAll_snoc refreshStatus_frame expectedPassThrough_snoc)
qed

lemma groupFor_props:
  assumes "groupFor k ms = Some g"
  shows "group_id g = k" and "ms \<noteq> []"
    and "status g = determineOverallStatus (statusOrMissing (opentofu g)) (statusOrMissing (ansible g))"
    and "(ip g, instanceType g, maxPlayers g) = expectedPassThrough ms"
    and "\<forall>s \<in> set ms. createdAt s \<noteq> 0 \<Longrightarrow> created g = expectedCreated ms"
proof -
  obtain m rest where ms: "ms = m # rest" using assms by (cases ms) (simp_all add: groupFor_def)
  obtain k' n mn where cl: "classify (stack_name m) = (k', n, mn)"
    by (cases "classify (stack_name m)")
  have g: "g = attachAll (newGroup k n mn) ms"
    using assms ms cl by (simp add: groupFor_def)
  show "ms \<noteq> []" using ms by simp
  show "group_id g = k" using g attachAll_frame[of "newGroup k n mn" ms] by (simp add: newGroup_def)
  show "status g = determineOverallStatus (statusOrMissing (opentofu g)) (statusOrMissing (ansible g))"
    using g ms attachAll_status[of ms "newGroup k n mn"] by simp
  show "(ip g, instanceType g, maxPlayers g) = expectedPassThrough ms"
    using g attachAll_passThrough[of "newGroup k n mn" ms] by (simp add: newGroup_def)
  show "created g = expectedCreated ms" if "\<forall>s \<in> set ms. createdAt s \<noteq> 0"
    using g that attachAll_created[of "newGroup k n mn" ms] by (simp add: newGroup_def)
qed

section \<open>Grouping: what each group holds\<close>

text \<open>
  Claim C1: the status that \<^verbatim>\<open>determineOverallStatus\<close> derives from a pair equals the label of
  the first rule of the precedence table that applies to it; and every group that
  \<^verbatim>\<open>groupStacksByBlueprint\<close> returns carries the status so derived from the statuses of its
  two slots, each read as \<^verbatim>\<open>Missing\<close> when the slot is empty.
\<close>

theorem aggregate_status_follows_table:
  "determineOverallStatus p c = firstMatch precedenceTable p c \<and>
   (\<forall>g \<in> set (groupStacksByBlueprint lc stacks).
      status g = firstMatch precedenceTable (statusOrMissing (opentofu g)) (statusOrMissing (ansible g)))"
proof -
  have table: "determineOverallStatus a b = firstMatch precedenceTable a b" for a b
    by (simp add: determineOverallStatus_def precedenceTable_def both_def either_def)
  have "status g = determineOverallStatus (statusOrMissing (opentofu g)) (statusOrMissing (ansible g))"
    if "g \<in> set (groupStacksByBlueprint lc stacks)" for g
    using that groupFor_props(3) by (auto simp add: in_groupStacksByBlueprint)
  then show ?thesis using table by simp
qed

lemma scenario_groups:
  "map (\<lambda>g. (group_id g, status g, created g, ip g, instanceType g, maxPlayers g))
     (groupStacksByBlueprint codeUnitCompare scenarioStacks) =
   [(''7'', ''Planning'', Some 11, None, ''unknown'', ''unknown''),
    (''ab12'', ''Ready'', Some 5, Some ''1.2.3.4'', ''unknown'', ''unknown''),
    (''Lobby'', ''Deploying'', Some 9, None, ''unknown'', ''unknown'')]"
  by code_simp

text \<open>
  Claim C5, as amended: when the timestamps are non-zero, the \<^verbatim>\<open>created\<close> field of every
  group returned is the timestamp of the last attached member that took the OpenTofu slot
  (such a member always overwrites the field), and, when the group has no such member, the
  timestamp of its first attached member; a member taking the Ansible slot never
  overwrites a timestamp already set.
\<close>

theorem created_is_provisioning_timestamp:
  assumes "\<forall>s \<in> set stacks. createdAt s \<noteq> 0"
    and "g \<in> set (groupStacksByBlueprint lc stacks)"
  shows "created g = expectedCreated (membersOf stacks (group_id g))"
proof -
  obtain k where k: "groupFor k (membersOf stacks k) = Some g"
    using assms(2) by (auto simp add: in_groupStacksByBlueprint)
  have "\<forall>s \<in> set (membersOf stacks k). createdAt s \<noteq> 0"
    using assms(1) by (simp add: membersOf_def)
  then show ?thesis
    using groupFor_props(1)[OF k] groupFor_props(5)[OF k] by simp
qed

lemma expectedPassThrough_outputs:
  assumes "expectedPassThrough ms = (i, t, p)"
  shows "i = provisioningOutput ''ec2_ip'' ms"
    and "provisioningOutput ''instance_type'' ms = Some v \<Longrightarrow> t = v"
    and "provisioningOutput ''max_players'' ms = Some v \<Longrightarrow> p = v"
  using assms
  by (auto simp add: expectedPassThrough_def provisioningOutput_def Let_def split: if_splits)

text \<open>
  Claim C6, as amended: for every group returned, \<^verbatim>\<open>ip\<close> is the \<^verbatim>\<open>ec2_ip\<close> output of the last
  attached member whose name holds \<^verbatim>\<open>opentofu\<close>, and null when that output is unavailable or
  the group has no such member; \<^verbatim>\<open>instanceType\<close> and \<^verbatim>\<open>maxPlayers\<close> are the outputs
  \<^verbatim>\<open>instance_type\<close> and \<^verbatim>\<open>max_players\<close> of that member whenever these are available.
\<close>

theorem pass_through_from_outputs:
  assumes "g \<in> set (groupStacksByBlueprint lc stacks)"
  shows "ip g = provisioningOutput ''ec2_ip'' (membersOf stacks (group_id g)) \<and>
         (\<forall>v. provisioningOutput ''instance_type'' (membersOf stacks (group_id g)) = Some v \<longrightarrow>
              instanceType g = v) \<and>
         (\<forall>v. provisioningOutput ''max_players'' (membersOf stacks (group_id g)) = Some v \<longrightarrow>
              maxPlayers g = v)"
proof -
  obtain k where k: "groupFor k (membersOf stacks k) = Some g"
    using assms by (auto simp add: in_groupStacksByBlueprint)
  have "expectedPassThrough (membersOf stacks (group_id g)) = (ip g, instanceType g, maxPlayers g)"
    using groupFor_props(1)[OF k] groupFor_props(4)[OF k] by simp
  then show ?thesis
    using expectedPassThrough_outputs by blast
qed

text \<open>
  Claim C7 at a failing input: a single stack whose blueprint token is \<^verbatim>\<open>constructor\<close>, the
  name of a property every object inherits, lands in no group at all.
\<close>

theorem inherited_token_has_no_group:
  "blueprintMatch ''Minesible-Opentofu-Blueprint-constructor'' = Some ''constructor'' \<and>
   groupStacksByBlueprint lc
     [mkStack ''s1'' ''Minesible-Opentofu-Blueprint-constructor'' ''FINISHED'' 5 None] = []"
proof -
  have token: "blueprintMatch ''Minesible-Opentofu-Blueprint-constructor'' = Some ''constructor''"
    by code_simp
  have "classify ''Minesible-Opentofu-Blueprint-constructor'' =
      (''constructor'', ''Blueprint-constructor'', False)"
    using token by (simp add: classify_def)
  then have "groupsObject
      [mkStack ''s1'' ''Minesible-Opentofu-Blueprint-constructor'' ''FINISHED'' 5 None] = []"
    by (simp add: groupsObject_def addStack_def mkStack_def inheritedKeys_def)
  then show ?thesis
    using token by (simp add: groupStacksByBlueprint_def objectValues_def sortBy_def)
qed

text \<open>
  For every other key the grouping is as expected: the keys of the groups returned are the
  non-empty, non-inherited keys that the names of the input yield, each once, whatever the
  order of the input. A name that matches the blueprint pattern yields its token as key.
\<close>

lemma blueprint_key:
  "blueprintMatch (stack_name s) = Some token \<Longrightarrow> groupKeyOf s = token"
  by (simp add: groupKeyOf_def classify_def)

lemma group_ids:
  "set (map group_id (groupStacksByBlueprint lc xs)) = {k. validKey k \<and> k \<in> groupKeyOf ` set xs}"
proof -
  have "membersOf xs k \<noteq> [] \<longleftrightarrow> k \<in> groupKeyOf ` set xs" for k
    by (auto simp add: membersOf_def filter_empty_conv)
  moreover have "k \<in> set (map group_id (groupStacksByBlueprint lc xs)) \<longleftrightarrow>
      validKey k \<and> membersOf xs k \<noteq> []" for k
  proof
    assume "k \<in> set (map group_id (groupStacksByBlueprint lc xs))"
    then obtain g k' where "validKey k'" "groupFor k' (membersOf xs k') = Some g" "group_id g = k"
      by (auto simp add: in_groupStacksByBlueprint)
    then show "validKey k \<and> membersOf xs k \<noteq> []"
      using groupFor_props(1,2) by blast
  next
    assume a: "validKey k \<and> membersOf xs k \<noteq> []"
    then obtain g where g: "groupFor k (membersOf xs k) = Some g"
      using groupFor_None[of k "membersOf xs k"] by (cases "groupFor k (membersOf xs k)") auto
    then have "g \<in> set (groupStacksByBlueprint lc xs)"
      using a by (auto simp add: in_groupStacksByBlueprint)
    then show "k \<in> set (map group_id (groupStacksByBlueprint lc xs))"
      using groupFor_props(1)[OF g] by force
  qed
  ultimately show ?thesis by blast
qed

lemma mset_insertBy: "mset (insertBy cmp x ys) = add_mset x (mset ys)"
  by (induction ys) simp_all

lemma mset_sortBy: "mset (sortBy cmp xs) = mset xs"
  by (induction xs) (simp_all add: sortBy_def mset_insertBy)

lemma mset_objectValues: "mset (objectValues kvs) = mset (map snd kvs)"
proof -
  have "mset (filter (\<lambda>kv. isArrayIndex (fst kv)) kvs) + mset (filter (\<lambda>kv. \<not> isArrayIndex (fst kv)) kvs) = mset kvs"
    by (induction kvs) simp_all
  then have "image_mset snd (mset (filter (\<lambda>kv. isArrayIndex (fst kv)) kvs)) +
     image_mset snd (mset (filter (\<lambda>kv. \<not> isArrayIndex (fst kv)) kvs)) = image_mset snd (mset kvs)"
    by (metis image_mset_union)
  then show ?thesis
    by (simp add: objectValues_def)
qed

lemma distinct_group_ids: "distinct (map group_id (groupStacksByBlueprint lc xs))"
proof -
  have key: "group_id g = k" if "(k, g) \<in> set (groupsObject xs)" for k g
  proof -
    have "map_of (groupsObject xs) k = Some g"
      using that distinct_groupsObject[of xs] by simp
    then have "groupFor k (membersOf xs k) = Some g"
      by (simp add: map_of_groupsObject split: if_splits)
    then show ?thesis by (rule groupFor_props(1))
  qed
  have ids: "map (group_id \<circ> snd) (groupsObject xs) = map fst (groupsObject xs)"
    using key by auto
  have "mset (map group_id (groupStacksByBlueprint lc xs)) =
        mset (map (group_id \<circ> snd) (groupsObject xs))"
    by (simp add: groupStacksByBlueprint_def mset_sortBy mset_objectValues multiset.map_comp)
  then have "distinct (map group_id (groupStacksByBlueprint lc xs)) \<longleftrightarrow>
             distinct (map (group_id \<circ> snd) (groupsObject xs))"
    by (rule mset_eq_imp_distinct_iff)
  then show ?thesis using distinct_groupsObject[of xs] by (simp only: ids)
qed

lemma grouping_permutation_invariant:
  assumes "set xs = set ys"
  shows "set (map group_id (groupStacksByBlueprint lc xs)) =
         set (map group_id (groupStacksByBlueprint lc ys))"
  using assms by (simp only: group_ids)

section \<open>Grouping: the order of the groups\<close>

lemma consistent_total: "consistent cmp \<Longrightarrow> cmp a b \<le> 0 \<or> cmp b a \<le> 0"
  unfolding consistent_def by blast

lemma consistent_trans:
  "consistent cmp \<Longrightarrow> cmp a b \<le> 0 \<Longrightarrow> cmp b c \<le> 0 \<Longrightarrow> cmp a c \<le> 0"
  unfolding consistent_def by blast

lemma consistent_compareGroups:
  assumes "consistent lc"
  shows "consistent (compareGroups lc)"
proof -
  have tot: "lc a b \<le> 0 \<or> lc b a \<le> 0" for a b
    using assms by (rule consistent_total)
  have tr: "lc a b \<le> 0 \<Longrightarrow> lc b c \<le> 0 \<Longrightarrow> lc a c \<le> 0" for a b c
    using assms by (rule consistent_trans)
  have "compareGroups lc a b \<le> 0 \<or> compareGroups lc b a \<le> 0" for a b
    using tot[of "group_name a" "group_name b"] by (simp add: compareGroups_def)
  moreover have "compareGroups lc a c \<le> 0"
    if "compareGroups lc a b \<le> 0" "compareGroups lc b c \<le> 0" for a b c
    using that tr[of "group_name a" "group_name b" "group_name c"]
    by (auto simp add: compareGroups_def split: if_splits)
  ultimately show ?thesis unfolding consistent_def by blast
qed

lemma sorted_insertBy:
  assumes "consistent cmp" and "sorted_wrt (\<lambda>a b. cmp a b \<le> 0) ys"
  shows "sorted_wrt (\<lambda>a b. cmp a b \<le> 0) (insertBy cmp x ys)"
  using assms(2)
proof (induction ys)
  case Nil
  then show ?case by simp
next
  case (Cons y ys)
  have tot: "cmp a b \<le> 0 \<or> cmp b a \<le> 0" for a b
    using assms(1) by (rule consistent_total)
  have tr: "cmp a b \<le> 0 \<Longrightarrow> cmp b c \<le> 0 \<Longrightarrow> cmp a c \<le> 0" for a b c
    using assms(1) by (rule consistent_trans)
  show ?case
  proof (cases "cmp x y \<le> 0")
    case True
    have "cmp x z \<le> 0" if "z \<in> set ys" for z
    proof -
      have "cmp y z \<le> 0" using Cons.prems that by simp
      with True show ?thesis by (rule tr)
    qed
    then show ?thesis using True Cons.prems by simp
  next
    case False
    then have "cmp y x \<le> 0" using tot[of x y] by simp
    then show ?thesis using False Cons by (simp add: set_insertBy)
  qed
qed

lemma sorted_sortBy:
  assumes "consistent cmp"
  shows "sorted_wrt (\<lambda>a b. cmp a b \<le> 0) (sortBy cmp xs)"
proof (induction xs)
  case Nil
  then show ?case by (simp add: sortBy_def)
next
  case (Cons x xs)
  then show ?case
    using sorted_insertBy[OF assms, of "sortBy cmp xs" x] by (simp add: sortBy_def)
qed

lemma partition_of_sorted:
  assumes "sorted_wrt R xs" and "\<And>a b. M a \<Longrightarrow> \<not> M b \<Longrightarrow> \<not> R a b"
  shows "xs = filter (\<lambda>g. \<not> M g) xs @ filter M xs"
  using assms(1)
proof (induction xs)
  case Nil
  then show ?case by simp
next
  case (Cons x xs)
  then have IH: "xs = filter (\<lambda>g. \<not> M g) xs @ filter M xs" by simp
  show ?case
  proof (cases "M x")
    case False
    then show ?thesis using IH by simp
  next
    case True
    then have "\<forall>b \<in> set xs. M b" using Cons.prems assms(2) by auto
    then have "filter (\<lambda>g. \<not> M g) xs = []" "filter M xs = xs"
      by (simp_all add: filter_empty_conv filter_id_conv)
    then show ?thesis using True by simp
  qed
qed

text \<open>
  Claim C8: for a consistent name comparison, the list returned is its groups that are not
  manual followed by its manual groups, and each of the two parts is sorted by group
  name.
\<close>

theorem groups_sorted_blueprint_first:
  assumes "consistent localeCompare"
  shows "groupStacksByBlueprint localeCompare stacks =
           filter (\<lambda>g. \<not> isManual g) (groupStacksByBlueprint localeCompare stacks) @
           filter isManual (groupStacksByBlueprint localeCompare stacks) \<and>
         sorted_wrt (\<lambda>a b. localeCompare (group_name a) (group_name b) \<le> 0)
           (filter (\<lambda>g. \<not> isManual g) (groupStacksByBlueprint localeCompare stacks)) \<and>
         sorted_wrt (\<lambda>a b. localeCompare (group_name a) (group_name b) \<le> 0)
           (filter isManual (groupStacksByBlueprint localeCompare stacks))"
proof -
  let ?out = "groupStacksByBlueprint localeCompare stacks"
  let ?R = "\<lambda>a b. compareGroups localeCompare a b \<le> 0"
  let ?N = "\<lambda>a b. localeCompare (group_name a) (group_name b) \<le> 0"
  have sorted: "sorted_wrt ?R ?out"
    unfolding groupStacksByBlueprint_def
    by (rule sorted_sortBy[OF consistent_compareGroups[OF assms]])
  have split: "?out = filter (\<lambda>g. \<not> isManual g) ?out @ filter isManual ?out"
    by (rule partition_of_sorted[OF sorted]) (simp add: compareGroups_def)
  have "sorted_wrt ?R (filter (\<lambda>g. \<not> isManual g) ?out)"
    using sorted by (rule sorted_wrt_filter)
  then have blue: "sorted_wrt ?N (filter (\<lambda>g. \<not> isManual g) ?out)"
    by (rule sorted_wrt_mono_rel[rotated]) (simp add: compareGroups_def)
  have "sorted_wrt ?R (filter isManual ?out)"
    using sorted by (rule sorted_wrt_filter)
  then have manual: "sorted_wrt ?N (filter isManual ?out)"
    by (rule sorted_wrt_mono_rel[rotated]) (simp add: compareGroups_def)
  show ?thesis using split blue manual by simp
qed

section \<open>Grouping: concrete runs\<close>

lemma codeUnitCompare_le: "codeUnitCompare a b \<le> 0 \<longleftrightarrow> a \<le> b"
proof (cases "a < b")
  case True
  then show ?thesis using less_imp_le[of a b] by (simp add: codeUnitCompare_def)
next
  case False
  then show ?thesis
    using le_less[of a b] by (cases "a = b") (simp_all add: codeUnitCompare_def)
qed

lemma consistent_codeUnitCompare: "consistent codeUnitCompare"
proof -
  have "codeUnitCompare a b \<le> 0 \<or> codeUnitCompare b a \<le> 0" for a b
    using linear[of a b] by (simp only: codeUnitCompare_le)
  moreover have "codeUnitCompare a c \<le> 0"
    if "codeUnitCompare a b \<le> 0" "codeUnitCompare b c \<le> 0" for a b c
    using that order_trans[of a b c] by (simp only: codeUnitCompare_le)
  ultimately show ?thesis unfolding consistent_def by blast
qed

lemma scenario_length: "length (groupStacksByBlueprint codeUnitCompare scenarioStacks) = 3"
  using scenario_groups[THEN arg_cong, of length] by simp

lemma scenario_second:
  "(\<lambda>g. (group_id g, status g, created g, ip g, instanceType g, maxPlayers g))
     (groupStacksByBlueprint codeUnitCompare scenarioStacks ! 1) =
   (''ab12'', ''Ready'', Some 5, Some ''1.2.3.4'', ''unknown'', ''unknown'')"
proof -
  have "map (\<lambda>g. (group_id g, status g, created g, ip g, instanceType g, maxPlayers g))
     (groupStacksByBlueprint codeUnitCompare scenarioStacks) ! 1 =
   (''ab12'', ''Ready'', Some 5, Some ''1.2.3.4'', ''unknown'', ''unknown'')"
    by (simp only: scenario_groups) simp
  then show ?thesis using scenario_length by simp
qed

lemma scenario_second_mem:
  "groupStacksByBlueprint codeUnitCompare scenarioStacks ! 1 \<in>
     set (groupStacksByBlueprint codeUnitCompare scenarioStacks)"
  using scenario_length by simp

lemma scenario_timestamps: "\<forall>s \<in> set scenarioStacks. createdAt s \<noteq> 0"
  by (simp add: scenarioStacks_def mkStack_def)

text \<open>Witness for C1: the four stacks above yield three groups.\<close>

theorem aggregate_status_follows_table_witness:
  "determineOverallStatus ''FINISHED'' ''FINISHED'' = firstMatch precedenceTable ''FINISHED'' ''FINISHED'' \<and>
   list_all (\<lambda>g. status g =
       firstMatch precedenceTable (statusOrMissing (opentofu g)) (statusOrMissing (ansible g)))
     (groupStacksByBlueprint codeUnitCompare scenarioStacks) \<and>
   map status (groupStacksByBlueprint codeUnitCompare scenarioStacks) =
     [''Planning'', ''Ready'', ''Deploying'']"
proof -
  have "map status (groupStacksByBlueprint codeUnitCompare scenarioStacks) =
      map (\<lambda>t. fst (snd t)) (map (\<lambda>g. (group_id g, status g, created g, ip g, instanceType g, maxPlayers g))
     (groupStacksByBlueprint codeUnitCompare scenarioStacks))"
    by simp
  then have "map status (groupStacksByBlueprint codeUnitCompare scenarioStacks) =
     [''Planning'', ''Ready'', ''Deploying'']"
    by (simp only: scenario_groups) simp
  then show ?thesis
    using aggregate_status_follows_table[of "''FINISHED''" "''FINISHED''" codeUnitCompare scenarioStacks]
    by (simp add: list_all_iff)
qed

lemma scenario_second_fields:
  "group_id (groupStacksByBlueprint codeUnitCompare scenarioStacks ! 1) = ''ab12''"
  "created (groupStacksByBlueprint codeUnitCompare scenarioStacks ! 1) = Some 5"
  "ip (groupStacksByBlueprint codeUnitCompare scenarioStacks ! 1) = Some ''1.2.3.4''"
  "instanceType (groupStacksByBlueprint codeUnitCompare scenarioStacks ! 1) = ''unknown''"
  using scenario_second by simp_all

text \<open>
  Witness for C5: the group \<^verbatim>\<open>ab12\<close>, whose Ansible stack (timestamp 7) is attached before its
  OpenTofu stack (timestamp 5).
\<close>

theorem created_is_provisioning_timestamp_witness:
  "created (groupStacksByBlueprint codeUnitCompare scenarioStacks ! 1) =
     expectedCreated (membersOf scenarioStacks
       (group_id (groupStacksByBlueprint codeUnitCompare scenarioStacks ! 1))) \<and>
   created (groupStacksByBlueprint codeUnitCompare scenarioStacks ! 1) = Some 5 \<and>
   map createdAt (membersOf scenarioStacks ''ab12'') = [7, 5]"
proof -
  have members: "map createdAt (membersOf scenarioStacks ''ab12'') = [7, 5]"
    by code_simp
  show ?thesis
    using created_is_provisioning_timestamp[OF scenario_timestamps scenario_second_mem] scenario_second_fields(2) members
    by blast
qed

text \<open>
  Claim C5, as stated, fails: the first member attached has timestamp 7, and the OpenTofu
  stack attached after it overwrites \<^verbatim>\<open>created\<close> with 5.
\<close>

theorem later_opentofu_overwrites_created:
  "map created (groupStacksByBlueprint codeUnitCompare
     [mkStack ''s2'' ''X-Ansible-Blueprint-ab12'' ''FINISHED'' 7 None,
      mkStack ''s1'' ''X-Opentofu-Blueprint-ab12'' ''FINISHED'' 5 None]) = [Some 5] \<and>
   createdAt (mkStack ''s2'' ''X-Ansible-Blueprint-ab12'' ''FINISHED'' 7 None) = 7"
  by code_simp

lemma sized_group:
  "length (groupStacksByBlueprint codeUnitCompare sizedStacks) = 1"
  "group_id (groupStacksByBlueprint codeUnitCompare sizedStacks ! 0) = ''ab12''"
  by code_simp+

lemma sized_outputs:
  "provisioningOutput ''ec2_ip'' (membersOf sizedStacks ''ab12'') = Some ''1.2.3.4''"
  "provisioningOutput ''instance_type'' (membersOf sizedStacks ''ab12'') = Some ''t3.medium''"
  "provisioningOutput ''max_players'' (membersOf sizedStacks ''ab12'') = Some ''20''"
  by code_simp+

text \<open>
  Witness for C6: the one group of an OpenTofu stack that exposes the three outputs.
\<close>

theorem pass_through_from_outputs_witness:
  "ip (groupStacksByBlueprint codeUnitCompare sizedStacks ! 0) = Some ''1.2.3.4'' \<and>
   instanceType (groupStacksByBlueprint codeUnitCompare sizedStacks ! 0) = ''t3.medium'' \<and>
   maxPlayers (groupStacksByBlueprint codeUnitCompare sizedStacks ! 0) = ''20''"
proof -
  have mem: "groupStacksByBlueprint codeUnitCompare sizedStacks ! 0 \<in>
      set (groupStacksByBlueprint codeUnitCompare sizedStacks)"
    using sized_group(1) by simp
  show ?thesis
    using pass_through_from_outputs[OF mem] sized_group(2) sized_outputs by simp
qed

text \<open>
  Claim C6, as stated, fails: an OpenTofu stack without outputs leaves \<^verbatim>\<open>ip\<close> null.
\<close>

theorem missing_output_gives_null_ip:
  "map ip (groupStacksByBlueprint codeUnitCompare
     [mkStack ''s1'' ''X-Opentofu-Blueprint-ab12'' ''FINISHED'' 5 None]) = [None] \<and>
   outputs (mkStack ''s1'' ''X-Opentofu-Blueprint-ab12'' ''FINISHED'' 5 None) = None"
  by code_simp

text \<open>Witness for C8: the four stacks above under the code-unit comparison.\<close>

theorem groups_sorted_blueprint_first_witness:
  "map group_name (filter (\<lambda>g. \<not> isManual g) (groupStacksByBlueprint codeUnitCompare scenarioStacks)) =
     [''Blueprint-7'', ''Blueprint-ab12''] \<and>
   map group_name (filter isManual (groupStacksByBlueprint codeUnitCompare scenarioStacks)) =
     [''Manual-Lobby''] \<and>
   groupStacksByBlueprint codeUnitCompare scenarioStacks =
     filter (\<lambda>g. \<not> isManual g) (groupStacksByBlueprint codeUnitCompare scenarioStacks) @
     filter isManual (groupStacksByBlueprint codeUnitCompare scenarioStacks) \<and>
   sorted_wrt (\<lambda>a b. codeUnitCompare (group_name a) (group_name b) \<le> 0)
     (filter (\<lambda>g. \<not> isManual g) (groupStacksByBlueprint codeUnitCompare scenarioStacks))"
proof -
  have "map group_name (filter (\<lambda>g. \<not> isManual g) (groupStacksByBlueprint codeUnitCompare scenarioStacks)) =
     [''Blueprint-7'', ''Blueprint-ab12'']"
    by code_simp
  moreover have "map group_name (filter isManual (groupStacksByBlueprint codeUnitCompare scenarioStacks)) =
     [''Manual-Lobby'']"
    by code_simp
  ultimately show ?thesis
    using groups_sorted_blueprint_first[OF consistent_codeUnitCompare, of scenarioStacks] by simp
qed

end
